theory Spec2Isabelle
  imports Complex_Main "HOL-Library.Word"
begin

section \<open>Data model\<close>

text \<open>
  The application (\<open>App\<close>, in \<open>src/unnamed/part_000\<close>) is a React component: four
  pieces of React state (\<open>entries\<close>, \<open>currentInput\<close>, \<open>currentOutput\<close>,
  \<open>sessionState\<close>) and five refs. Its callbacks are modelled as functions on one
  record holding all of them. A state update queued with an updater function is applied
  in the order of the calls, so the model applies each one where the call stands.

  Values the callbacks read from the platform are parameters: \<open>now\<close> is the reading
  of \<open>Date.now()\<close>, \<open>clock\<close> the reading of \<open>outputCtx.currentTime\<close>. Times and
  samples are real numbers.
\<close>

datatype js_error =
    TypeError
  | InvalidStateError
  | MalformedDataError
  | DecodeError
  | Error string

datatype 'a promise = Fulfilled 'a | Rejected js_error

datatype Sender = User | Model

text \<open>\<open>TranscriptionEntry\<close> and \<open>LiveSessionState\<close> of \<open>types.ts\<close>. The identifier
  is the number of the \<open>crypto.randomUUID()\<close> call that produced it.\<close>

record TranscriptionEntry =
  id' :: nat
  sender :: Sender
  text' :: string
  timestamp :: int

record LiveSessionState =
  isActive :: bool
  isConnecting :: bool
  error :: "string option"

text \<open>The part of a \<open>LiveServerMessage\<close> that \<open>onmessage\<close> reads. An optional field
  is an \<open>option\<close>; an optional boolean that is only tested for truth is a \<open>bool\<close>.\<close>

record Transcription =
  transcription_text :: "string option"

record InlineData =
  data :: "string option"

record Part =
  inlineData :: "InlineData option"

record Content =
  parts :: "Part list option"

record LiveServerContent =
  inputTranscription :: "Transcription option"
  outputTranscription :: "Transcription option"
  turnComplete :: bool
  modelTurn :: "Content option"
  interrupted :: bool

record LiveServerMessage =
  serverContent :: "LiveServerContent option"

text \<open>Modelled from the spec: the buffer that \<open>decodeAudioData\<close> of
  \<open>services/audioUtils\<close> returns (the file is not part of the sources). The spec's
  PlayableAudioBuffer has a sample sequence and a duration of
  \<open>sampleCount / sampleRateHz\<close>.\<close>

record PlayableAudioBuffer =
  samples :: "real list"
  sampleRateHz :: nat
  channelCount :: nat

definition duration :: "PlayableAudioBuffer \<Rightarrow> real" where
  "duration b = real (length (samples b)) / real (sampleRateHz b)"

text \<open>Platform objects. An \<open>AudioBufferSourceNode\<close> remembers the time given to
  \<open>start\<close> and whether \<open>stop\<close> was called on it.\<close>

record AudioContext =
  sampleRate :: nat
  closed :: bool

record AudioContexts =
  inputCtx :: AudioContext
  outputCtx :: AudioContext

record AudioBufferSourceNode =
  buffer :: PlayableAudioBuffer
  startedAt :: "real option"
  stopped :: bool

datatype TrackState = Live | Ended

record MediaStream =
  tracks :: "TrackState list"

record Session =
  sessionOpen :: bool

text \<open>
  The state of the component. \<open>heap\<close> holds every source node created so far; a node
  is named by its position there, and \<open>sourcesRef\<close> (a JavaScript \<open>Set\<close>) lists the
  names of its members in insertion order. \<open>uuids\<close> counts the calls of
  \<open>crypto.randomUUID()\<close>.
\<close>

record AppState =
  entries :: "TranscriptionEntry list"
  currentInput :: string
  currentOutput :: string
  sessionState :: LiveSessionState
  nextStartTimeRef :: real
  audioContextsRef :: "AudioContexts option"
  sourcesRef :: "nat list"
  streamRef :: "MediaStream option"
  sessionPromiseRef :: "Session promise option"
  heap :: "AudioBufferSourceNode list"
  uuids :: nat

text \<open>A callback either returns or throws; both leave a state behind.\<close>

datatype outcome = Returned AppState | Threw js_error AppState

fun state_of :: "outcome \<Rightarrow> AppState" where
  "state_of (Returned s) = s"
| "state_of (Threw e s) = s"

definition andThen :: "outcome \<Rightarrow> (AppState \<Rightarrow> outcome) \<Rightarrow> outcome" where
  "andThen r f = (case r of Returned s \<Rightarrow> f s | Threw e s \<Rightarrow> Threw e s)"

definition idleState :: LiveSessionState where
  "idleState = \<lparr>isActive = False, isConnecting = False, error = None\<rparr>"

text \<open>The state of a freshly mounted component (lines 8 to 21).\<close>

definition initialState :: AppState where
  "initialState =
     \<lparr>entries = [], currentInput = [], currentOutput = [], sessionState = idleState,
      nextStartTimeRef = 0, audioContextsRef = None, sourcesRef = [], streamRef = None,
      sessionPromiseRef = None, heap = [], uuids = 0\<rparr>"

section \<open>PCM codec\<close>

text \<open>
  Modelled from the spec: \<open>encode\<close>, \<open>decode\<close> and \<open>decodeToAudioBuffer\<close> of the
  PCM codec. The source imports them from \<open>services/audioUtils\<close> (as \<open>createBlob\<close>,
  \<open>decode\<close> and \<open>decodeAudioData\<close>), which is not part of the sources. The spec
  does not say how a scaled sample becomes an integer; the model takes what a store into
  an \<open>Int16Array\<close> does: truncation towards zero, then wrap-around to 16 bits.
\<close>

definition clamp :: "real \<Rightarrow> real" where
  "clamp x = max (- 1) (min 1 x)"

definition trunc :: "real \<Rightarrow> int" where
  "trunc x = (if x < 0 then \<lceil>x\<rceil> else \<lfloor>x\<rfloor>)"

definition toInt16 :: "real \<Rightarrow> 16 word" where
  "toInt16 x = word_of_int (trunc x)"

definition scale :: "real \<Rightarrow> real" where
  "scale x = (let c = clamp x in if c < 0 then c * 32768 else c * 32767)"

definition encodeSample :: "real \<Rightarrow> 8 word list" where
  "encodeSample x = (let w = toInt16 (scale x) in [ucast w, ucast (drop_bit 8 w)])"

definition encode :: "real list \<Rightarrow> 8 word list" where
  "encode xs = concat (map encodeSample xs)"

fun pcm16 :: "8 word list \<Rightarrow> 16 word list" where
  "pcm16 (lo # hi # bs) = word_cat hi lo # pcm16 bs"
| "pcm16 bs = []"

definition decodeToAudioBuffer ::
  "8 word list \<Rightarrow> nat \<Rightarrow> nat \<Rightarrow> js_error + PlayableAudioBuffer" where
  "decodeToAudioBuffer bytes rate channels =
     (if odd (length bytes) then Inl DecodeError
      else Inr \<lparr>samples = map (\<lambda>w. real_of_int (sint w) / 32768) (pcm16 bytes),
                sampleRateHz = rate, channelCount = channels\<rparr>)"

text \<open>Standard base64 (RFC 4648, with padding): four characters give three bytes.\<close>

definition b64_index :: "char \<Rightarrow> nat option" where
  "b64_index c =
     (let n = (of_char c :: nat) in
      if 65 \<le> n \<and> n \<le> 90 then Some (n - 65)
      else if 97 \<le> n \<and> n \<le> 122 then Some (n - 71)
      else if 48 \<le> n \<and> n \<le> 57 then Some (n + 4)
      else if n = 43 then Some 62
      else if n = 47 then Some 63
      else None)"

definition b64_quad :: "char \<Rightarrow> char \<Rightarrow> char \<Rightarrow> char \<Rightarrow> nat option" where
  "b64_quad a b c d =
     (case (b64_index a, b64_index b, b64_index c, b64_index d) of
        (Some i, Some j, Some k, Some l) \<Rightarrow> Some (((i * 64 + j) * 64 + k) * 64 + l)
      | _ \<Rightarrow> None)"

fun decode :: "string \<Rightarrow> js_error + 8 word list" where
  "decode [] = Inr []"
| "decode [a, b, c, d] =
     (if c = CHR ''='' \<and> d = CHR ''='' then
        (case b64_quad a b (CHR ''A'') (CHR ''A'') of
           None \<Rightarrow> Inl MalformedDataError
         | Some n \<Rightarrow> Inr [of_nat (n div 65536)])
      else if d = CHR ''='' then
        (case b64_quad a b c (CHR ''A'') of
           None \<Rightarrow> Inl MalformedDataError
         | Some n \<Rightarrow> Inr [of_nat (n div 65536), of_nat (n div 256)])
      else
        (case b64_quad a b c d of
           None \<Rightarrow> Inl MalformedDataError
         | Some n \<Rightarrow> Inr [of_nat (n div 65536), of_nat (n div 256), of_nat n]))"
| "decode (a # b # c # d # rest) =
     (case b64_quad a b c d of
        None \<Rightarrow> Inl MalformedDataError
      | Some n \<Rightarrow>
          (case decode rest of
             Inl e \<Rightarrow> Inl e
           | Inr bs \<Rightarrow> Inr (of_nat (n div 65536) # of_nat (n div 256) # of_nat n # bs)))"
| "decode cs = Inl MalformedDataError"

section \<open>Turn aggregation\<close>

text \<open>
  \<open>String.prototype.trim\<close> removes white space and line terminators from both ends.
  A character here is a code unit below 256; of those, the ones \<open>trim\<close> removes are
  TAB, LF, VT, FF, CR, SPACE and NBSP.
\<close>

definition is_ws :: "char \<Rightarrow> bool" where
  "is_ws c = ((of_char c :: nat) \<in> {9, 10, 11, 12, 13, 32, 160})"

definition trim :: "string \<Rightarrow> string" where
  "trim s = rev (dropWhile is_ws (rev (dropWhile is_ws s)))"

text \<open>\<open>addEntry\<close> (lines 23 to 31): nothing when the trimmed text is empty, else one
  entry with the text as given is appended.\<close>

definition addEntry :: "int \<Rightarrow> Sender \<Rightarrow> string \<Rightarrow> AppState \<Rightarrow> AppState" where
  "addEntry now sndr txt s =
     (if trim txt = [] then s
      else s\<lparr>entries := entries s @
                 [\<lparr>id' = uuids s, sender = sndr, text' = txt, timestamp = now\<rparr>],
             uuids := Suc (uuids s)\<rparr>)"

text \<open>String concatenation with a value that may be \<open>undefined\<close> (\<open>prev + text\<close>).\<close>

definition js_string :: "string option \<Rightarrow> string" where
  "js_string v = (case v of None \<Rightarrow> ''undefined'' | Some t \<Rightarrow> t)"

text \<open>Lines 100 to 106: a message carries an input transcription, else an output
  transcription, else neither.\<close>

definition handleTranscription :: "LiveServerMessage \<Rightarrow> AppState \<Rightarrow> AppState" where
  "handleTranscription message s =
     (case serverContent message of
        None \<Rightarrow> s
      | Some sc \<Rightarrow>
          (case inputTranscription sc of
             Some tr \<Rightarrow> s\<lparr>currentInput := currentInput s @ js_string (transcription_text tr)\<rparr>
           | None \<Rightarrow>
               (case outputTranscription sc of
                  Some tr \<Rightarrow>
                    s\<lparr>currentOutput := currentOutput s @ js_string (transcription_text tr)\<rparr>
                | None \<Rightarrow> s)))"

text \<open>Lines 109 to 116, the two updaters run on \<open>turnComplete\<close>: the user buffer
  first, then the model buffer.\<close>

definition flushInput :: "int \<Rightarrow> AppState \<Rightarrow> AppState" where
  "flushInput now s =
     (if currentInput s \<noteq> [] then addEntry now User (currentInput s) s else s)
       \<lparr>currentInput := []\<rparr>"

definition flushOutput :: "int \<Rightarrow> AppState \<Rightarrow> AppState" where
  "flushOutput now s =
     (if currentOutput s \<noteq> [] then addEntry now Model (currentOutput s) s else s)
       \<lparr>currentOutput := []\<rparr>"

definition completeTurn :: "int \<Rightarrow> AppState \<Rightarrow> AppState" where
  "completeTurn now s = flushOutput now (flushInput now s)"

definition handleTurnComplete :: "int \<Rightarrow> LiveServerMessage \<Rightarrow> AppState \<Rightarrow> AppState" where
  "handleTurnComplete now message s =
     (case serverContent message of
        None \<Rightarrow> s
      | Some sc \<Rightarrow> if turnComplete sc then completeTurn now s else s)"

section \<open>Playback scheduling\<close>

text \<open>\<open>source.stop()\<close>: an \<open>InvalidStateError\<close> unless \<open>start\<close> was called on the
  node. A name that is not the name of a node on the heap denotes no node.\<close>

definition stop :: "nat \<Rightarrow> AppState \<Rightarrow> outcome" where
  "stop i s =
     (if i < length (heap s) \<and> startedAt (heap s ! i) \<noteq> None
      then Returned (s\<lparr>heap := (heap s)[i := (heap s ! i)\<lparr>stopped := True\<rparr>]\<rparr>)
      else Threw InvalidStateError s)"

fun forEach_stop :: "nat list \<Rightarrow> AppState \<Rightarrow> outcome" where
  "forEach_stop [] s = Returned s"
| "forEach_stop (i # rest) s = andThen (stop i s) (forEach_stop rest)"

text \<open>The three statements of lines 138 to 140, which lines 51 to 53 repeat: stop every
  member of the set, clear the set, reset the cursor.\<close>

definition stopAllSources :: "AppState \<Rightarrow> outcome" where
  "stopAllSources s =
     andThen (forEach_stop (sourcesRef s) s)
       (\<lambda>s1. Returned (s1\<lparr>sourcesRef := [], nextStartTimeRef := 0\<rparr>))"

text \<open>Lines 137 to 141.\<close>

definition handleInterrupted :: "LiveServerMessage \<Rightarrow> AppState \<Rightarrow> outcome" where
  "handleInterrupted message s =
     (case serverContent message of
        None \<Rightarrow> Returned s
      | Some sc \<Rightarrow> if interrupted sc then stopAllSources s else Returned s)"

text \<open>Line 120: \<open>message.serverContent?.modelTurn?.parts[0]?.inlineData?.data\<close>. The
  index is not guarded: a model turn without \<open>parts\<close> is a \<open>TypeError\<close>.\<close>

definition base64Audio :: "LiveServerMessage \<Rightarrow> js_error + string option" where
  "base64Audio message =
     (case serverContent message of
        None \<Rightarrow> Inr None
      | Some sc \<Rightarrow>
          (case modelTurn sc of
             None \<Rightarrow> Inr None
           | Some c \<Rightarrow>
               (case parts c of
                  None \<Rightarrow> Inl TypeError
                | Some ps \<Rightarrow>
                    (case ps of
                       [] \<Rightarrow> Inr None
                     | p # _ \<Rightarrow>
                         (case inlineData p of None \<Rightarrow> Inr None | Some d \<Rightarrow> Inr (data d))))))"

text \<open>Line 123.\<close>

definition advanceCursor :: "real \<Rightarrow> AppState \<Rightarrow> AppState" where
  "advanceCursor clock s = s\<lparr>nextStartTimeRef := max (nextStartTimeRef s) clock\<rparr>"

definition set_add :: "nat \<Rightarrow> nat list \<Rightarrow> nat list" where
  "set_add x xs = (if x \<in> set xs then xs else xs @ [x])"

text \<open>Lines 126 to 134: a new source node gets the buffer, is started at the cursor,
  the cursor moves on by the buffer's duration, and the node joins the set.\<close>

definition scheduleBuffer :: "PlayableAudioBuffer \<Rightarrow> AppState \<Rightarrow> AppState" where
  "scheduleBuffer audioBuffer s =
     (let source = length (heap s);
          node = \<lparr>buffer = audioBuffer, startedAt = Some (nextStartTimeRef s), stopped = False\<rparr>
      in s\<lparr>heap := heap s @ [node],
            nextStartTimeRef := nextStartTimeRef s + duration audioBuffer,
            sourcesRef := set_add source (sourcesRef s)\<rparr>)"

text \<open>The listener of line 129, run when a node's playback has ended.\<close>

definition onended :: "nat \<Rightarrow> AppState \<Rightarrow> AppState" where
  "onended source s = s\<lparr>sourcesRef := removeAll source (sourcesRef s)\<rparr>"

text \<open>The promise that \<open>decodeAudioData(decode(base64Audio), outputCtx, 24000, 1)\<close>
  gives (line 125).\<close>

definition decodeChunk :: "string \<Rightarrow> PlayableAudioBuffer promise" where
  "decodeChunk payload =
     (case decode payload of
        Inl e \<Rightarrow> Rejected e
      | Inr bytes \<Rightarrow>
          (case decodeToAudioBuffer bytes 24000 1 of
             Inl e \<Rightarrow> Rejected e
           | Inr audioBuffer \<Rightarrow> Fulfilled audioBuffer))"

section \<open>The message handler\<close>

text \<open>
  \<open>onmessage\<close> (lines 98 to 142) is an async function with one \<open>await\<close>, at line 125.
  \<open>onmessage_before_await\<close> runs it up to there: it either finishes (no audio to
  play) or is suspended on the promise of the decoded chunk. \<open>onmessage_after_await\<close>
  is the rest, run on whatever the state is when the promise has settled.
  \<open>onmessage\<close> is the handler with nothing else running in between.
\<close>

datatype suspended =
    Finished outcome
  | Awaiting "PlayableAudioBuffer promise" AppState

definition onmessage_before_await ::
  "int \<Rightarrow> real \<Rightarrow> LiveServerMessage \<Rightarrow> AppState \<Rightarrow> suspended" where
  "onmessage_before_await now clock message s =
     (let s1 = handleTurnComplete now message (handleTranscription message s) in
      case base64Audio message of
        Inl e \<Rightarrow> Finished (Threw e s1)
      | Inr None \<Rightarrow> Finished (handleInterrupted message s1)
      | Inr (Some payload) \<Rightarrow>
          if payload \<noteq> [] \<and> audioContextsRef s1 \<noteq> None
          then Awaiting (decodeChunk payload) (advanceCursor clock s1)
          else Finished (handleInterrupted message s1))"

definition onmessage_after_await ::
  "LiveServerMessage \<Rightarrow> PlayableAudioBuffer promise \<Rightarrow> AppState \<Rightarrow> outcome" where
  "onmessage_after_await message p s =
     (case p of
        Rejected e \<Rightarrow> Threw e s
      | Fulfilled audioBuffer \<Rightarrow> handleInterrupted message (scheduleBuffer audioBuffer s))"

definition onmessage :: "int \<Rightarrow> real \<Rightarrow> LiveServerMessage \<Rightarrow> AppState \<Rightarrow> outcome" where
  "onmessage now clock message s =
     (case onmessage_before_await now clock message s of
        Finished r \<Rightarrow> r
      | Awaiting p s1 \<Rightarrow> onmessage_after_await message p s1)"

section \<open>Teardown\<close>

text \<open>
  \<open>cleanupSession\<close> (lines 33 to 58), run with nothing else in between. It has no
  \<open>try\<close>: an awaited promise that rejects, or a call that throws, ends it there.
  The session, the stream's tracks and the audio contexts are dropped right after they
  are closed or stopped, so what remains of them in the state is the emptied ref.
  The callbacks that start the teardown (\<open>onerror\<close>, \<open>onclose\<close>,
  \<open>toggleSession\<close>, the \<open>catch\<close> block of \<open>startSession\<close>) do not await it; their
  outcome here is the outcome of the teardown they started.
\<close>

text \<open>Lines 34 to 38.\<close>

definition closeSession :: "AppState \<Rightarrow> outcome" where
  "closeSession s =
     (case sessionPromiseRef s of
        None \<Rightarrow> Returned s
      | Some (Rejected e) \<Rightarrow> Threw e s
      | Some (Fulfilled session) \<Rightarrow> Returned (s\<lparr>sessionPromiseRef := None\<rparr>))"

text \<open>Lines 40 to 43.\<close>

definition stopStream :: "AppState \<Rightarrow> outcome" where
  "stopStream s =
     (case streamRef s of
        None \<Rightarrow> Returned s
      | Some stream \<Rightarrow> Returned (s\<lparr>streamRef := None\<rparr>))"

text \<open>Lines 45 to 49. \<open>close()\<close> on a context that is closed already rejects with an
  \<open>InvalidStateError\<close>.\<close>

definition closeContexts :: "AppState \<Rightarrow> outcome" where
  "closeContexts s =
     (case audioContextsRef s of
        None \<Rightarrow> Returned s
      | Some ctxs \<Rightarrow>
          if closed (inputCtx ctxs) then Threw InvalidStateError s
          else if closed (outputCtx ctxs)
          then Threw InvalidStateError
                 (s\<lparr>audioContextsRef := Some (ctxs\<lparr>inputCtx := (inputCtx ctxs)\<lparr>closed := True\<rparr>\<rparr>)\<rparr>)
          else Returned (s\<lparr>audioContextsRef := None\<rparr>))"

text \<open>Lines 55 to 57.\<close>

definition resetState :: "AppState \<Rightarrow> outcome" where
  "resetState s =
     Returned (s\<lparr>sessionState := \<lparr>isActive = False, isConnecting = False, error = None\<rparr>,
                 currentInput := [], currentOutput := []\<rparr>)"

definition cleanupSession :: "AppState \<Rightarrow> outcome" where
  "cleanupSession s =
     andThen (andThen (andThen (andThen (closeSession s) stopStream) closeContexts)
       stopAllSources) resetState"

text \<open>\<open>onerror\<close> (lines 143 to 147) and \<open>onclose\<close> (lines 148 to 150).\<close>

definition onerror :: "AppState \<Rightarrow> outcome" where
  "onerror s =
     cleanupSession
       (s\<lparr>sessionState := (sessionState s)\<lparr>error := Some ''Connection failed. Please try again.''\<rparr>\<rparr>)"

definition onclose :: "AppState \<Rightarrow> outcome" where
  "onclose s = cleanupSession s"

text \<open>\<open>onopen\<close> (line 82); the wiring of the microphone that follows it changes no
  state of the component.\<close>

definition onopen :: "AppState \<Rightarrow> AppState" where
  "onopen s = s\<lparr>sessionState := \<lparr>isActive = True, isConnecting = False, error = None\<rparr>\<rparr>"

section \<open>Starting a session\<close>

text \<open>
  \<open>startSession\<close> (lines 60 to 170). What the platform answers is a parameter: the
  API key of the environment, the outcome of \<open>getUserMedia\<close> (the message of its
  rejection, or a stream) and the promise that \<open>ai.live.connect\<close> returns. The
  \<open>catch\<close> block (lines 165 to 169) records the message and runs the teardown.
\<close>

definition startSession_catch :: "string \<Rightarrow> AppState \<Rightarrow> outcome" where
  "startSession_catch msg s =
     cleanupSession
       (s\<lparr>sessionState :=
            \<lparr>isActive = False, isConnecting = False,
             error = Some (if msg = [] then ''Error starting session'' else msg)\<rparr>\<rparr>)"

definition startSession ::
  "string option \<Rightarrow> string + MediaStream \<Rightarrow> Session promise \<Rightarrow> AppState \<Rightarrow> outcome" where
  "startSession apiKey getUserMedia sessionPromise s =
     (let s1 = s\<lparr>sessionState := (sessionState s)\<lparr>isConnecting := True, error := None\<rparr>\<rparr> in
      if apiKey = None \<or> apiKey = Some [] then startSession_catch ''API Key not found'' s1
      else
        (let s2 = s1\<lparr>audioContextsRef :=
                      Some \<lparr>inputCtx = \<lparr>sampleRate = 16000, closed = False\<rparr>,
                            outputCtx = \<lparr>sampleRate = 24000, closed = False\<rparr>\<rparr>\<rparr> in
         case getUserMedia of
           Inl msg \<Rightarrow> startSession_catch msg s2
         | Inr stream \<Rightarrow>
             Returned (s2\<lparr>streamRef := Some stream, sessionPromiseRef := Some sessionPromise\<rparr>)))"

text \<open>\<open>toggleSession\<close> (lines 172 to 178).\<close>

definition toggleSession ::
  "string option \<Rightarrow> string + MediaStream \<Rightarrow> Session promise \<Rightarrow> AppState \<Rightarrow> outcome" where
  "toggleSession apiKey getUserMedia sessionPromise s =
     (if isActive (sessionState s) \<or> isConnecting (sessionState s) then cleanupSession s
      else startSession apiKey getUserMedia sessionPromise s)"

text \<open>The state of a session that has started and opened: \<open>startSession\<close> with a key,
  a microphone stream of one track and a connection that succeeds, then
  \<open>onopen\<close>.\<close>

definition activeState :: AppState where
  "activeState =
     initialState
       \<lparr>sessionState := \<lparr>isActive = True, isConnecting = False, error = None\<rparr>,
        audioContextsRef := Some \<lparr>inputCtx = \<lparr>sampleRate = 16000, closed = False\<rparr>,
                                 outputCtx = \<lparr>sampleRate = 24000, closed = False\<rparr>\<rparr>,
        streamRef := Some \<lparr>tracks = [Live]\<rparr>,
        sessionPromiseRef := Some (Fulfilled \<lparr>sessionOpen = True\<rparr>)\<rparr>"

section \<open>Server events\<close>

text \<open>The messages the transport delivers, by kind: a partial transcript of the user or
  of the model, the end of a turn, an interruption, and a chunk of audio.\<close>

definition emptyContent :: LiveServerContent where
  "emptyContent =
     \<lparr>inputTranscription = None, outputTranscription = None, turnComplete = False,
      modelTurn = None, interrupted = False\<rparr>"

definition partialUserText :: "string \<Rightarrow> LiveServerMessage" where
  "partialUserText t =
     \<lparr>serverContent = Some (emptyContent\<lparr>inputTranscription := Some \<lparr>transcription_text = Some t\<rparr>\<rparr>)\<rparr>"

definition partialModelText :: "string \<Rightarrow> LiveServerMessage" where
  "partialModelText t =
     \<lparr>serverContent = Some (emptyContent\<lparr>outputTranscription := Some \<lparr>transcription_text = Some t\<rparr>\<rparr>)\<rparr>"

definition turnCompleteEvent :: LiveServerMessage where
  "turnCompleteEvent = \<lparr>serverContent = Some (emptyContent\<lparr>turnComplete := True\<rparr>)\<rparr>"

definition interruptedEvent :: LiveServerMessage where
  "interruptedEvent = \<lparr>serverContent = Some (emptyContent\<lparr>interrupted := True\<rparr>)\<rparr>"

definition audioChunk :: "string \<Rightarrow> LiveServerMessage" where
  "audioChunk payload =
     \<lparr>serverContent = Some (emptyContent\<lparr>modelTurn :=
        Some \<lparr>parts = Some [\<lparr>inlineData = Some \<lparr>data = Some payload\<rparr>\<rparr>]\<rparr>\<rparr>)\<rparr>"

section \<open>Sequences of enqueue operations\<close>

text \<open>
  One enqueue operation: what the handler does with a chunk of audio that decodes to
  \<open>audioBuffer\<close> while the playback clock reads \<open>clock\<close> (line 123, then lines 126
  to 134).
\<close>

definition enqueue :: "real \<Rightarrow> PlayableAudioBuffer \<Rightarrow> AppState \<Rightarrow> AppState" where
  "enqueue clock audioBuffer s = scheduleBuffer audioBuffer (advanceCursor clock s)"

fun enqueue_all :: "(real \<times> PlayableAudioBuffer) list \<Rightarrow> AppState \<Rightarrow> AppState" where
  "enqueue_all [] s = s"
| "enqueue_all ((clock, audioBuffer) # ops) s = enqueue_all ops (enqueue clock audioBuffer s)"

text \<open>The states a sequence of enqueue operations goes through, the first one included.\<close>

fun enqueue_states :: "(real \<times> PlayableAudioBuffer) list \<Rightarrow> AppState \<Rightarrow> AppState list" where
  "enqueue_states [] s = [s]"
| "enqueue_states ((clock, audioBuffer) # ops) s = s # enqueue_states ops (enqueue clock audioBuffer s)"

text \<open>The start times of a sequence of enqueue operations, from a cursor at \<open>t\<close>.\<close>

fun starts :: "(real \<times> PlayableAudioBuffer) list \<Rightarrow> real \<Rightarrow> real list" where
  "starts [] t = []"
| "starts ((clock, audioBuffer) # ops) t =
     max t clock # starts ops (max t clock + duration audioBuffer)"

section \<open>Conditions on states\<close>

text \<open>Every identifier in the log came from the supply: it is below the count of
  identifiers issued.\<close>

definition ids_issued :: "AppState \<Rightarrow> bool" where
  "ids_issued s = (\<forall>e \<in> set (entries s). id' e < uuids s)"

text \<open>Every member of the set of live sources is a node of the heap that has been
  started. The handler adds a node to the set only after starting it.\<close>

definition live_started :: "AppState \<Rightarrow> bool" where
  "live_started s =
     (\<forall>i \<in> set (sourcesRef s). i < length (heap s) \<and> startedAt (heap s ! i) \<noteq> None)"

text \<open>What a completed teardown leaves: every ref released, no live source, the cursor
  at 0, the session state idle and both pending buffers empty.\<close>

definition torn_down :: "AppState \<Rightarrow> bool" where
  "torn_down s =
     (sessionPromiseRef s = None \<and> streamRef s = None \<and> audioContextsRef s = None \<and>
      sourcesRef s = [] \<and> nextStartTimeRef s = 0 \<and>
      sessionState s = idleState \<and> currentInput s = [] \<and> currentOutput s = [])"

text \<open>No step of the teardown can fail: the session promise, if any, is not a rejected
  one; the audio contexts, if any, are not closed yet; every live source has been
  started.\<close>

definition steps_can_succeed :: "AppState \<Rightarrow> bool" where
  "steps_can_succeed s =
     ((case sessionPromiseRef s of Some (Rejected e) \<Rightarrow> False | _ \<Rightarrow> True) \<and>
      (case audioContextsRef s of
         Some ctxs \<Rightarrow> \<not> closed (inputCtx ctxs) \<and> \<not> closed (outputCtx ctxs)
       | None \<Rightarrow> True) \<and>
      live_started s)"

section \<open>The suspension points of the teardown\<close>

text \<open>
  \<open>cleanupSession\<close> awaits three promises: the session promise (line 35) and the two
  \<open>close()\<close> calls (lines 46 and 47). Between the parts other callbacks may run, a
  second teardown among them. \<open>cleanup_begin\<close> runs a call up to its first
  \<open>await\<close>, \<open>cleanup_resume\<close> from one \<open>await\<close> to the next, on the state as
  it is by then. \<open>close()\<close> marks the context closed at once and gives a promise;
  called on a closed context it gives a rejected one.
\<close>

datatype cleanup_await =
    AwaitSession "Session promise"
  | AwaitInputClose "unit promise"
  | AwaitOutputClose "unit promise"

datatype cleanup_suspended =
    CleanupDone outcome
  | CleanupAwaiting cleanup_await AppState

text \<open>Lines 51 to 57.\<close>

definition cleanup_from_sources :: "AppState \<Rightarrow> outcome" where
  "cleanup_from_sources s = andThen (stopAllSources s) resetState"

text \<open>Lines 40 to 46.\<close>

definition cleanup_from_stream :: "AppState \<Rightarrow> cleanup_suspended" where
  "cleanup_from_stream s =
     (let s1 = s\<lparr>streamRef := None\<rparr> in
      case audioContextsRef s1 of
        None \<Rightarrow> CleanupDone (cleanup_from_sources s1)
      | Some ctxs \<Rightarrow>
          if closed (inputCtx ctxs)
          then CleanupAwaiting (AwaitInputClose (Rejected InvalidStateError)) s1
          else CleanupAwaiting (AwaitInputClose (Fulfilled ()))
                 (s1\<lparr>audioContextsRef := Some (ctxs\<lparr>inputCtx := (inputCtx ctxs)\<lparr>closed := True\<rparr>\<rparr>)\<rparr>))"

text \<open>Lines 34 and 35.\<close>

definition cleanup_begin :: "AppState \<Rightarrow> cleanup_suspended" where
  "cleanup_begin s =
     (case sessionPromiseRef s of
        None \<Rightarrow> cleanup_from_stream s
      | Some p \<Rightarrow> CleanupAwaiting (AwaitSession p) s)"

text \<open>The rest of line 35 up to line 46; line 47, which reads the ref again; line 48 and
  the rest.\<close>

fun cleanup_resume :: "cleanup_await \<Rightarrow> AppState \<Rightarrow> cleanup_suspended" where
  "cleanup_resume (AwaitSession p) s =
     (case p of
        Rejected e \<Rightarrow> CleanupDone (Threw e s)
      | Fulfilled session \<Rightarrow> cleanup_from_stream (s\<lparr>sessionPromiseRef := None\<rparr>))"
| "cleanup_resume (AwaitInputClose p) s =
     (case p of
        Rejected e \<Rightarrow> CleanupDone (Threw e s)
      | Fulfilled u \<Rightarrow>
          (case audioContextsRef s of
             None \<Rightarrow> CleanupDone (Threw TypeError s)
           | Some ctxs \<Rightarrow>
               if closed (outputCtx ctxs)
               then CleanupAwaiting (AwaitOutputClose (Rejected InvalidStateError)) s
               else CleanupAwaiting (AwaitOutputClose (Fulfilled ()))
                      (s\<lparr>audioContextsRef :=
                           Some (ctxs\<lparr>outputCtx := (outputCtx ctxs)\<lparr>closed := True\<rparr>\<rparr>)\<rparr>)))"
| "cleanup_resume (AwaitOutputClose p) s =
     (case p of
        Rejected e \<Rightarrow> CleanupDone (Threw e s)
      | Fulfilled u \<Rightarrow> CleanupDone (cleanup_from_sources (s\<lparr>audioContextsRef := None\<rparr>)))"

definition cleanup_step :: "cleanup_suspended \<Rightarrow> cleanup_suspended" where
  "cleanup_step c =
     (case c of CleanupDone r \<Rightarrow> CleanupDone r | CleanupAwaiting aw s \<Rightarrow> cleanup_resume aw s)"

section \<open>The platform calls of the teardown\<close>

text \<open>The teardown acts on the platform: it closes the session, stops the tracks of the
  microphone stream, closes the two audio contexts and stops the source nodes. To state
  which of these calls a run of \<open>cleanupSession\<close> has made, the functions of this section
  are the steps of the teardown again, each returning with its outcome the calls it has
  made, in the order of the source. A call that throws has been made: it is in the list.\<close>

datatype context_name = InputContext | OutputContext

datatype platform_call =
    SessionClose
  | TrackStop nat
  | ContextClose context_name
  | SourceStop nat

type_synonym traced = "platform_call list \<times> outcome"

text \<open>Sequencing: the calls of the second part follow those of the first; after an
  exception nothing more is called.\<close>

definition andThen_traced :: "traced \<Rightarrow> (AppState \<Rightarrow> traced) \<Rightarrow> traced" where
  "andThen_traced r f =
     (case r of
        (cs, Returned s) \<Rightarrow> (case f s of (cs', r') \<Rightarrow> (cs @ cs', r'))
      | (cs, Threw e s) \<Rightarrow> (cs, Threw e s))"

text \<open>Lines 34 to 38: awaiting a rejected promise throws before \<open>session.close()\<close> is
  reached; otherwise the session is closed and the reference cleared.\<close>

definition closeSession_traced :: "AppState \<Rightarrow> traced" where
  "closeSession_traced s =
     (case sessionPromiseRef s of
        None \<Rightarrow> ([], Returned s)
      | Some (Rejected e) \<Rightarrow> ([], Threw e s)
      | Some (Fulfilled session) \<Rightarrow> ([SessionClose], Returned (s\<lparr>sessionPromiseRef := None\<rparr>)))"

text \<open>Lines 40 to 43: \<open>stop()\<close> on every track of the stream, in order; a track is named
  by its position in \<open>getTracks()\<close>.\<close>

definition stopStream_traced :: "AppState \<Rightarrow> traced" where
  "stopStream_traced s =
     (case streamRef s of
        None \<Rightarrow> ([], Returned s)
      | Some stream \<Rightarrow>
          (map TrackStop [0..<length (tracks stream)], Returned (s\<lparr>streamRef := None\<rparr>)))"

text \<open>Lines 45 to 49: \<open>close()\<close> on the input context, then on the output context;
  \<open>close()\<close> on a closed context rejects, and the awaiting teardown throws.\<close>

definition closeContexts_traced :: "AppState \<Rightarrow> traced" where
  "closeContexts_traced s =
     (case audioContextsRef s of
        None \<Rightarrow> ([], Returned s)
      | Some ctxs \<Rightarrow>
          if closed (inputCtx ctxs) then ([ContextClose InputContext], Threw InvalidStateError s)
          else if closed (outputCtx ctxs)
          then ([ContextClose InputContext, ContextClose OutputContext],
                Threw InvalidStateError
                  (s\<lparr>audioContextsRef := Some (ctxs\<lparr>inputCtx := (inputCtx ctxs)\<lparr>closed := True\<rparr>\<rparr>)\<rparr>))
          else ([ContextClose InputContext, ContextClose OutputContext],
                Returned (s\<lparr>audioContextsRef := None\<rparr>)))"

text \<open>Line 51: \<open>stop()\<close> on every live source, in insertion order, ending at the first
  call that throws.\<close>

fun forEach_stop_traced :: "nat list \<Rightarrow> AppState \<Rightarrow> traced" where
  "forEach_stop_traced [] s = ([], Returned s)"
| "forEach_stop_traced (i # rest) s =
     andThen_traced ([SourceStop i], stop i s) (forEach_stop_traced rest)"

text \<open>Lines 51 to 53.\<close>

definition stopAllSources_traced :: "AppState \<Rightarrow> traced" where
  "stopAllSources_traced s =
     andThen_traced (forEach_stop_traced (sourcesRef s) s)
       (\<lambda>s1. ([], Returned (s1\<lparr>sourcesRef := [], nextStartTimeRef := 0\<rparr>)))"

text \<open>Lines 33 to 58: the teardown with the calls it makes. The last step (lines 55 to
  57) sets React state only.\<close>

definition cleanupSession_traced :: "AppState \<Rightarrow> traced" where
  "cleanupSession_traced s =
     andThen_traced
       (andThen_traced
          (andThen_traced (andThen_traced (closeSession_traced s) stopStream_traced)
             closeContexts_traced)
          stopAllSources_traced)
       (\<lambda>s1. ([], resetState s1))"

text \<open>The calls that each of the first three steps makes in a state where it does not
  fail: the session closed if there is one, every track of the stream stopped, both
  contexts closed.\<close>

definition session_calls :: "AppState \<Rightarrow> platform_call list" where
  "session_calls s =
     (case sessionPromiseRef s of Some (Fulfilled session) \<Rightarrow> [SessionClose] | _ \<Rightarrow> [])"

definition track_calls :: "AppState \<Rightarrow> platform_call list" where
  "track_calls s =
     (case streamRef s of
        None \<Rightarrow> []
      | Some stream \<Rightarrow> map TrackStop [0..<length (tracks stream)])"

definition context_calls :: "AppState \<Rightarrow> platform_call list" where
  "context_calls s =
     (case audioContextsRef s of
        None \<Rightarrow> []
      | Some ctxs \<Rightarrow> [ContextClose InputContext, ContextClose OutputContext])"

text \<open>The conditions under which the steps do not fail: node \<open>i\<close> exists and has been
  started (so that \<open>stop()\<close> on it returns), the session promise is not a rejected one,
  neither context is closed.\<close>

definition started :: "AppState \<Rightarrow> nat \<Rightarrow> bool" where
  "started s i = (i < length (heap s) \<and> startedAt (heap s ! i) \<noteq> None)"

definition promise_not_rejected :: "AppState \<Rightarrow> bool" where
  "promise_not_rejected s = (case sessionPromiseRef s of Some (Rejected e) \<Rightarrow> False | _ \<Rightarrow> True)"

definition contexts_open :: "AppState \<Rightarrow> bool" where
  "contexts_open s =
     (case audioContextsRef s of
        Some ctxs \<Rightarrow> \<not> closed (inputCtx ctxs) \<and> \<not> closed (outputCtx ctxs)
      | None \<Rightarrow> True)"

text \<open>The heap after \<open>stop()\<close> has been called on the started nodes \<open>ids\<close>: these nodes
  are stopped, the others are as they were.\<close>

definition stopped_heap :: "nat list \<Rightarrow> AudioBufferSourceNode list \<Rightarrow> AudioBufferSourceNode list" where
  "stopped_heap ids h =
     map (\<lambda>j. if j \<in> set ids then (h ! j)\<lparr>stopped := True\<rparr> else h ! j) [0..<length h]"

section \<open>States and inputs of the examples\<close>

text \<open>A chunk of audio at the output rate, with the given samples.\<close>

definition chunk :: "real list \<Rightarrow> PlayableAudioBuffer" where
  "chunk xs = \<lparr>samples = xs, sampleRateHz = 24000, channelCount = 1\<rparr>"

text \<open>Three chunks of 3, 6 and 1 samples; the first two arrive at the same clock
  reading, the third long after both have played.\<close>

definition three_chunks :: "(real \<times> PlayableAudioBuffer) list" where
  "three_chunks = [(0, chunk [0, 0, 0]), (0, chunk [0, 0, 0, 0, 0, 0]), (5, chunk [0])]"

text \<open>A state with the pending texts \<open>Hi\<close> of the user and \<open>Hello there\<close> of the
  model.\<close>

definition s_hi :: AppState where
  "s_hi = initialState\<lparr>currentInput := ''Hi'', currentOutput := ''Hello there''\<rparr>"

text \<open>A user buffer with white space at both ends, and a model buffer of white space
  only.\<close>

definition s_padded :: AppState where
  "s_padded = initialState\<lparr>currentInput := '' hi '', currentOutput := ''   ''\<rparr>"

text \<open>A session whose connection fails: \<open>startSession\<close> has stored a promise that
  rejects.\<close>

definition connectFailedState :: AppState where
  "connectFailedState =
     initialState
       \<lparr>sessionState := \<lparr>isActive = False, isConnecting = True, error = None\<rparr>,
        audioContextsRef := Some \<lparr>inputCtx = \<lparr>sampleRate = 16000, closed = False\<rparr>,
                                 outputCtx = \<lparr>sampleRate = 24000, closed = False\<rparr>\<rparr>,
        streamRef := Some \<lparr>tracks = [Live]\<rparr>,
        sessionPromiseRef := Some (Rejected (Error ''connect failed''))\<rparr>"

text \<open>An active session whose teardown is suspended on \<open>close()\<close> of the input
  context.\<close>

definition closingState :: AppState where
  "closingState =
     activeState
       \<lparr>sessionPromiseRef := None, streamRef := None,
        audioContextsRef := Some \<lparr>inputCtx = \<lparr>sampleRate = 16000, closed = True\<rparr>,
                                 outputCtx = \<lparr>sampleRate = 24000, closed = False\<rparr>\<rparr>\<rparr>"

text \<open>An active session with one chunk of three samples scheduled: one live source,
  started.\<close>

definition playingState :: AppState where
  "playingState = enqueue 0 (chunk [0, 0, 0]) activeState"

text \<open>An active session whose output context is closed already.\<close>

definition outputClosedState :: AppState where
  "outputClosedState =
     activeState
       \<lparr>audioContextsRef := Some \<lparr>inputCtx = \<lparr>sampleRate = 16000, closed = False\<rparr>,
                                 outputCtx = \<lparr>sampleRate = 24000, closed = True\<rparr>\<rparr>\<rparr>"

text \<open>A state with two live sources of which the second has not been started. The
  callbacks never produce such a state; it shows what the teardown does when \<open>stop()\<close>
  throws.\<close>

definition unstartedState :: AppState where
  "unstartedState =
     playingState
       \<lparr>heap := heap playingState @
                 [\<lparr>buffer = chunk [0], startedAt = None, stopped = False\<rparr>],
        sourcesRef := [0, 1]\<rparr>"

section \<open>The codec's round trip\<close>

lemma word_cat_ucast_drop_bit:
  "word_cat (ucast (drop_bit 8 w) :: 8 word) (ucast w :: 8 word) = (w :: 16 word)"
  by (rule word_cat_split_alt) (simp_all add: word_split_def word_size)

lemma pcm16_encode: "pcm16 (encode xs) = map (\<lambda>x. toInt16 (scale x)) xs"
  by (induction xs) (simp_all add: encode_def encodeSample_def Let_def word_cat_ucast_drop_bit)

lemma length_encode: "length (encode xs) = 2 * length xs"
  by (induction xs) (simp_all add: encode_def encodeSample_def Let_def)

lemma scale_bounds: "- 32768 \<le> scale x \<and> scale x \<le> 32767"
  by (auto simp: scale_def clamp_def Let_def max_def min_def)

lemma trunc_bounds:
  "- 32768 \<le> x \<Longrightarrow> x \<le> 32767 \<Longrightarrow> - 32768 \<le> trunc x \<and> trunc x \<le> 32767"
  unfolding trunc_def by (auto simp: le_floor_iff floor_le_iff le_ceiling_iff ceiling_le_iff)

lemma sint_toInt16: "sint (toInt16 (scale x)) = trunc (scale x)"
proof -
  have "- 32768 \<le> trunc (scale x) \<and> trunc (scale x) \<le> 32767"
    using scale_bounds trunc_bounds by blast
  then show ?thesis
    by (simp add: toInt16_def sint_sbintrunc' signed_take_bit_int_eq_self)
qed

lemma signed_toInt16: "signed (toInt16 (scale x)) = real_of_int (trunc (scale x))"
proof -
  have "(signed (toInt16 (scale x)) :: real) = of_int (sint (toInt16 (scale x)))"
    by (rule of_int_sint [symmetric])
  then show ?thesis by (simp only: sint_toInt16)
qed

text \<open>A sample that is not negative is scaled by 32767 and cut down to an integer, then
  divided by 32768: the result is below the sample by less than two steps.\<close>

lemma quantise_nonneg:
  assumes "0 \<le> x" "x \<le> 1"
  shows "0 \<le> x - real_of_int (trunc (scale x)) / 32768"
    and "x - real_of_int (trunc (scale x)) / 32768 < 2 / 32768"
proof -
  have s: "scale x = x * 32767" using assms by (simp add: scale_def clamp_def Let_def)
  have t: "trunc (scale x) = \<lfloor>x * 32767\<rfloor>" using assms by (simp add: s trunc_def)
  have "real_of_int \<lfloor>x * 32767\<rfloor> \<le> x * 32767" by simp
  with assms have "real_of_int \<lfloor>x * 32767\<rfloor> \<le> x * 32768" by linarith
  then show "0 \<le> x - real_of_int (trunc (scale x)) / 32768" using t by simp
  have "x * 32767 < real_of_int \<lfloor>x * 32767\<rfloor> + 1" by linarith
  with assms have "x * 32768 < real_of_int \<lfloor>x * 32767\<rfloor> + 2" by linarith
  then show "x - real_of_int (trunc (scale x)) / 32768 < 2 / 32768" using t by simp
qed

text \<open>A negative sample is scaled by the same 32768 it is divided by: the result is
  above the sample by less than one step.\<close>

lemma quantise_neg:
  assumes "- 1 \<le> x" "x < 0"
  shows "0 \<le> real_of_int (trunc (scale x)) / 32768 - x"
    and "real_of_int (trunc (scale x)) / 32768 - x < 1 / 32768"
proof -
  have s: "scale x = x * 32768" using assms by (simp add: scale_def clamp_def Let_def)
  have "x * 32768 < 0" using assms by simp
  then have t: "trunc (scale x) = \<lceil>x * 32768\<rceil>" by (simp add: s trunc_def)
  have "x * 32768 \<le> real_of_int \<lceil>x * 32768\<rceil>" by simp
  then show "0 \<le> real_of_int (trunc (scale x)) / 32768 - x" using t by simp
  have "real_of_int \<lceil>x * 32768\<rceil> < x * 32768 + 1" by linarith
  then show "real_of_int (trunc (scale x)) / 32768 - x < 1 / 32768" using t by simp
qed

text \<open>
  Claim C2, as amended. For every sequence of samples, \<open>decodeToAudioBuffer\<close> accepts
  \<open>encode\<close> of it and gives a sample sequence of the same length, in which every
  sample whose original lies in \<open>[-1, 1]\<close> differs from the original by less than
  \<open>2/32768\<close>, and by less than \<open>1/32768\<close> when the original is negative.
  (The bound \<open>1/32768\<close> of the claim fails for samples just below 1: they are scaled by
  32767 and divided by 32768.)
\<close>

theorem encode_decode_within_two_steps:
  "\<exists>buf. decodeToAudioBuffer (encode xs) rate channels = Inr buf \<and>
     length (samples buf) = length xs \<and>
     (\<forall>i < length xs. - 1 \<le> xs ! i \<and> xs ! i \<le> 1 \<longrightarrow>
        \<bar>samples buf ! i - xs ! i\<bar> < 2 / 32768 \<and>
        (xs ! i < 0 \<longrightarrow> \<bar>samples buf ! i - xs ! i\<bar> < 1 / 32768))"
proof -
  let ?buf = "\<lparr>samples = map (\<lambda>x. real_of_int (trunc (scale x)) / 32768) xs,
                sampleRateHz = rate, channelCount = channels\<rparr>"
  have d: "decodeToAudioBuffer (encode xs) rate channels = Inr ?buf"
    by (simp add: decodeToAudioBuffer_def length_encode pcm16_encode signed_toInt16 comp_def)
  have b: "\<bar>samples ?buf ! i - xs ! i\<bar> < 2 / 32768 \<and>
        (xs ! i < 0 \<longrightarrow> \<bar>samples ?buf ! i - xs ! i\<bar> < 1 / 32768)"
    if "i < length xs" "- 1 \<le> xs ! i" "xs ! i \<le> 1" for i
  proof (cases "xs ! i < 0")
    case True
    with quantise_neg [of "xs ! i"] that show ?thesis by simp
  next
    case False
    with quantise_nonneg [of "xs ! i"] that show ?thesis by simp
  qed
  show ?thesis
    using d b by (intro exI [of _ ?buf]) simp
qed

text \<open>The theorem at the samples \<open>1/2\<close> and \<open>-1/2\<close>.\<close>

theorem encode_decode_within_two_steps_witness:
  "\<exists>buf. decodeToAudioBuffer (encode [1 / 2, - 1 / 2]) 24000 1 = Inr buf \<and>
     length (samples buf) = 2 \<and>
     \<bar>samples buf ! 0 - 1 / 2\<bar> < 2 / 32768 \<and> \<bar>samples buf ! 1 - (- 1 / 2)\<bar> < 1 / 32768"
proof -
  obtain buf where b: "decodeToAudioBuffer (encode [1 / 2, - 1 / 2]) 24000 1 = Inr buf"
      "length (samples buf) = length [1 / 2, - 1 / 2 :: real]"
      "\<forall>i < length [1 / 2, - 1 / 2 :: real].
         - 1 \<le> [1 / 2, - 1 / 2 :: real] ! i \<and> [1 / 2, - 1 / 2 :: real] ! i \<le> 1 \<longrightarrow>
         \<bar>samples buf ! i - [1 / 2, - 1 / 2] ! i\<bar> < 2 / 32768 \<and>
         ([1 / 2, - 1 / 2 :: real] ! i < 0 \<longrightarrow>
            \<bar>samples buf ! i - [1 / 2, - 1 / 2] ! i\<bar> < 1 / 32768)"
    using encode_decode_within_two_steps [of "[1 / 2, - 1 / 2]" 24000 1] by blast
  from b(3) [rule_format, of 0] b(3) [rule_format, of 1] b(1,2)
  show ?thesis by (intro exI [of _ buf]) simp
qed

text \<open>
  The claim as stated fails at the one-sample sequence \<open>262139/262144\<close> (that is
  \<open>1 - 5/2^18\<close>, a value a 32-bit float holds): scaled by 32767 it is \<open>32766.375\<close>,
  stored as 32766, decoded as \<open>32766/32768\<close>, which is \<open>1.375/32768\<close> below the
  original.
\<close>

theorem encode_decode_one_step_counterexample:
  "decodeToAudioBuffer (encode [262139 / 262144]) 24000 1 =
     Inr \<lparr>samples = [32766 / 32768], sampleRateHz = 24000, channelCount = 1\<rparr> \<and>
   - 1 \<le> (262139 / 262144 :: real) \<and> (262139 / 262144 :: real) \<le> 1 \<and>
   \<not> \<bar>32766 / 32768 - 262139 / 262144 :: real\<bar> \<le> 1 / 32768"
  by (simp add: encode_def encodeSample_def scale_def clamp_def toInt16_def trunc_def
      decodeToAudioBuffer_def word_cat_eq)

section \<open>Turn aggregation: what a completed turn emits\<close>

lemma trim_eq_Nil_iff: "trim t = [] \<longleftrightarrow> (\<forall>c \<in> set t. is_ws c)"
proof
  assume "trim t = []"
  then have "\<forall>c \<in> set (dropWhile is_ws t). is_ws c"
    by (simp add: trim_def dropWhile_eq_Nil_conv)
  then have "dropWhile is_ws t = []"
    using hd_dropWhile [of is_ws t] by (cases "dropWhile is_ws t") auto
  then show "\<forall>c \<in> set t. is_ws c" by (simp add: dropWhile_eq_Nil_conv)
next
  assume "\<forall>c \<in> set t. is_ws c"
  then have "dropWhile is_ws t = []" by (simp add: dropWhile_eq_Nil_conv)
  then show "trim t = []" unfolding trim_def by (simp only: rev.simps dropWhile.simps)
qed

lemma entries_addEntry:
  "entries (addEntry now sndr txt s) =
     entries s @ (if trim txt = [] then []
                  else [\<lparr>id' = uuids s, sender = sndr, text' = txt, timestamp = now\<rparr>])"
  by (simp add: addEntry_def)

lemma uuids_addEntry:
  "uuids (addEntry now sndr txt s) = (if trim txt = [] then uuids s else Suc (uuids s))"
  by (simp add: addEntry_def)

lemma trim_Nil [simp]: "trim [] = []"
  by (simp add: trim_def)

lemma entries_flushInput:
  "entries (flushInput now s) =
     entries s @ (if trim (currentInput s) = [] then []
                  else [\<lparr>id' = uuids s, sender = User, text' = currentInput s, timestamp = now\<rparr>])"
  by (simp add: flushInput_def entries_addEntry)

lemma flushInput_frame:
  "uuids (flushInput now s) = (if trim (currentInput s) = [] then uuids s else Suc (uuids s))"
  "currentInput (flushInput now s) = []"
  "currentOutput (flushInput now s) = currentOutput s"
  by (simp_all add: flushInput_def addEntry_def)

lemma entries_flushOutput:
  "entries (flushOutput now s) =
     entries s @ (if trim (currentOutput s) = [] then []
                  else [\<lparr>id' = uuids s, sender = Model, text' = currentOutput s, timestamp = now\<rparr>])"
  by (simp add: flushOutput_def entries_addEntry)

lemma flushOutput_frame:
  "uuids (flushOutput now s) = (if trim (currentOutput s) = [] then uuids s else Suc (uuids s))"
  "currentInput (flushOutput now s) = currentInput s"
  "currentOutput (flushOutput now s) = []"
  by (simp_all add: flushOutput_def addEntry_def)

lemma entries_completeTurn:
  "entries (completeTurn now s) =
     entries s @
     (if trim (currentInput s) = [] then []
      else [\<lparr>id' = uuids s, sender = User, text' = currentInput s, timestamp = now\<rparr>]) @
     (if trim (currentOutput s) = [] then []
      else [\<lparr>id' = (if trim (currentInput s) = [] then uuids s else Suc (uuids s)),
             sender = Model, text' = currentOutput s, timestamp = now\<rparr>])"
  by (simp add: completeTurn_def entries_flushOutput entries_flushInput flushInput_frame)

lemma completeTurn_buffers:
  "currentInput (completeTurn now s) = []" "currentOutput (completeTurn now s) = []"
  by (simp_all add: completeTurn_def flushOutput_frame flushInput_frame)

lemmas event_defs = partialUserText_def partialModelText_def turnCompleteEvent_def
  interruptedEvent_def audioChunk_def emptyContent_def

lemmas onmessage_defs = onmessage_def onmessage_before_await_def onmessage_after_await_def
  handleTranscription_def handleTurnComplete_def handleInterrupted_def base64Audio_def
  js_string_def

lemma onmessage_partialUserText:
  "onmessage now clock (partialUserText t) s = Returned (s\<lparr>currentInput := currentInput s @ t\<rparr>)"
  by (simp add: onmessage_defs event_defs)

lemma onmessage_partialModelText:
  "onmessage now clock (partialModelText t) s = Returned (s\<lparr>currentOutput := currentOutput s @ t\<rparr>)"
  by (simp add: onmessage_defs event_defs)

lemma onmessage_turnCompleteEvent:
  "onmessage now clock turnCompleteEvent s = Returned (completeTurn now s)"
  by (simp add: onmessage_defs event_defs)

lemma onmessage_interruptedEvent:
  "onmessage now clock interruptedEvent s = stopAllSources s"
  by (simp add: onmessage_defs event_defs)

lemma onmessage_audioChunk:
  "payload \<noteq> [] \<Longrightarrow> audioContextsRef s \<noteq> None \<Longrightarrow>
   onmessage now clock (audioChunk payload) s =
     (case decodeChunk payload of
        Rejected e \<Rightarrow> Threw e (advanceCursor clock s)
      | Fulfilled audioBuffer \<Rightarrow> Returned (scheduleBuffer audioBuffer (advanceCursor clock s)))"
  by (simp add: onmessage_defs event_defs split: promise.splits)

lemma uuids_completeTurn:
  "uuids (completeTurn now s) =
     uuids s + (if trim (currentInput s) = [] then 0 else 1) +
       (if trim (currentOutput s) = [] then 0 else 1)"
  by (simp add: completeTurn_def flushOutput_frame flushInput_frame)

text \<open>
  Claim C4. On a completed turn (\<open>completeTurn\<close>, which is what \<open>onmessage\<close> does
  with a turn-complete event) the log grows by one entry for each buffer whose trimmed
  content is not empty and by nothing for the others, the user's entry before the
  model's; each entry carries the buffer's content, the current timestamp and the next
  identifier of the supply, which no earlier entry has; both buffers are empty
  afterwards. In particular, from empty buffers, a completed turn emits nothing, and the
  deltas \<open>He\<close> and \<open>llo\<close> of the user followed by a completed turn emit exactly one
  entry, of the user, with the text \<open>Hello\<close>.
\<close>

theorem completeTurn_emits_user_then_model:
  "entries (completeTurn now s) =
     entries s @
     (if trim (currentInput s) = [] then []
      else [\<lparr>id' = uuids s, sender = User, text' = currentInput s, timestamp = now\<rparr>]) @
     (if trim (currentOutput s) = [] then []
      else [\<lparr>id' = (if trim (currentInput s) = [] then uuids s else Suc (uuids s)),
             sender = Model, text' = currentOutput s, timestamp = now\<rparr>]) \<and>
   currentInput (completeTurn now s) = [] \<and>
   currentOutput (completeTurn now s) = [] \<and>
   (ids_issued s \<longrightarrow>
      ids_issued (completeTurn now s) \<and>
      (\<forall>e \<in> set (drop (length (entries s)) (entries (completeTurn now s))).
         id' e \<notin> id' ` set (entries s)) \<and>
      distinct (map id' (drop (length (entries s)) (entries (completeTurn now s))))) \<and>
   onmessage now clock turnCompleteEvent s = Returned (completeTurn now s) \<and>
   (currentInput s = [] \<and> currentOutput s = [] \<longrightarrow>
      entries (completeTurn now s) = entries s \<and>
      entries (state_of (onmessage now clock turnCompleteEvent
        (state_of (onmessage n2 c2 (partialUserText ''llo'')
          (state_of (onmessage n1 c1 (partialUserText ''He'') s)))))) =
        entries s @ [\<lparr>id' = uuids s, sender = User, text' = ''Hello'', timestamp = now\<rparr>])"
proof -
  have fresh: "ids_issued (completeTurn now s) \<and>
      (\<forall>e \<in> set (drop (length (entries s)) (entries (completeTurn now s))).
         id' e \<notin> id' ` set (entries s)) \<and>
      distinct (map id' (drop (length (entries s)) (entries (completeTurn now s))))"
    if "ids_issued s"
    using that
    by (auto simp: ids_issued_def entries_completeTurn uuids_completeTurn)
  have hello: "entries (state_of (onmessage now clock turnCompleteEvent
        (state_of (onmessage n2 c2 (partialUserText ''llo'')
          (state_of (onmessage n1 c1 (partialUserText ''He'') s)))))) =
        entries s @ [\<lparr>id' = uuids s, sender = User, text' = ''Hello'', timestamp = now\<rparr>]"
    if "currentInput s = []" "currentOutput s = []"
    using that
    by (simp add: onmessage_partialUserText onmessage_turnCompleteEvent entries_completeTurn
        trim_def is_ws_def)
  show ?thesis
    using fresh hello
    by (simp add: entries_completeTurn completeTurn_buffers onmessage_turnCompleteEvent)
qed

theorem completeTurn_emits_user_then_model_witness:
  "ids_issued s_hi \<and>
   entries (completeTurn 1700 s_hi) =
     [\<lparr>id' = 0, sender = User, text' = ''Hi'', timestamp = 1700\<rparr>,
      \<lparr>id' = 1, sender = Model, text' = ''Hello there'', timestamp = 1700\<rparr>] \<and>
   ids_issued (completeTurn 1700 s_hi) \<and>
   currentInput initialState = [] \<and> currentOutput initialState = [] \<and>
   entries (completeTurn 1700 initialState) = [] \<and>
   entries (state_of (onmessage 1700 0 turnCompleteEvent
     (state_of (onmessage 1600 0 (partialUserText ''llo'')
       (state_of (onmessage 1500 0 (partialUserText ''He'') initialState)))))) =
     [\<lparr>id' = 0, sender = User, text' = ''Hello'', timestamp = 1700\<rparr>]"
proof -
  have i: "ids_issued s_hi" by (simp add: ids_issued_def s_hi_def initialState_def)
  have e: "currentInput initialState = [] \<and> currentOutput initialState = []"
    by (simp add: initialState_def)
  from completeTurn_emits_user_then_model [of 1700 s_hi 0 1600 0 1500 0] i
    completeTurn_emits_user_then_model [of 1700 initialState 0 1600 0 1500 0] e
  show ?thesis
    by (simp add: s_hi_def initialState_def trim_def is_ws_def)
qed

section \<open>What stopping the sources changes\<close>

lemma stop_heap_only: "\<exists>h. state_of (stop i s) = s\<lparr>heap := h\<rparr>"
  by (cases s) (auto simp: stop_def)

lemma andThen_Returned [simp]: "andThen (Returned s) f = f s"
  by (simp add: andThen_def)

lemma andThen_Threw [simp]: "andThen (Threw e s) f = Threw e s"
  by (simp add: andThen_def)

lemma forEach_stop_heap_only: "\<exists>h. state_of (forEach_stop ids s) = s\<lparr>heap := h\<rparr>"
proof (induction ids arbitrary: s)
  case Nil
  show ?case by (cases s) auto
next
  case (Cons i ids)
  show ?case
  proof (cases "stop i s")
    case (Returned s1)
    with stop_heap_only [of i s] obtain h where "s1 = s\<lparr>heap := h\<rparr>" by auto
    with Cons.IH [of s1] Returned show ?thesis by auto
  next
    case (Threw e s1)
    with stop_heap_only [of i s] show ?thesis by auto
  qed
qed

lemma stopAllSources_frame:
  "entries (state_of (stopAllSources s)) = entries s"
  "currentInput (state_of (stopAllSources s)) = currentInput s"
  "currentOutput (state_of (stopAllSources s)) = currentOutput s"
  "sessionState (state_of (stopAllSources s)) = sessionState s"
  "uuids (state_of (stopAllSources s)) = uuids s"
  "audioContextsRef (state_of (stopAllSources s)) = audioContextsRef s"
  "streamRef (state_of (stopAllSources s)) = streamRef s"
  "sessionPromiseRef (state_of (stopAllSources s)) = sessionPromiseRef s"
proof -
  obtain h where h: "state_of (forEach_stop (sourcesRef s) s) = s\<lparr>heap := h\<rparr>"
    using forEach_stop_heap_only by blast
  show "entries (state_of (stopAllSources s)) = entries s"
    "currentInput (state_of (stopAllSources s)) = currentInput s"
    "currentOutput (state_of (stopAllSources s)) = currentOutput s"
    "sessionState (state_of (stopAllSources s)) = sessionState s"
    "uuids (state_of (stopAllSources s)) = uuids s"
    "audioContextsRef (state_of (stopAllSources s)) = audioContextsRef s"
    "streamRef (state_of (stopAllSources s)) = streamRef s"
    "sessionPromiseRef (state_of (stopAllSources s)) = sessionPromiseRef s"
    using h by (cases "forEach_stop (sourcesRef s) s"; simp add: stopAllSources_def)+
qed

lemma handleInterrupted_frame:
  "entries (state_of (handleInterrupted m s)) = entries s"
  "currentInput (state_of (handleInterrupted m s)) = currentInput s"
  "currentOutput (state_of (handleInterrupted m s)) = currentOutput s"
  "sessionState (state_of (handleInterrupted m s)) = sessionState s"
  "uuids (state_of (handleInterrupted m s)) = uuids s"
  "audioContextsRef (state_of (handleInterrupted m s)) = audioContextsRef s"
  "streamRef (state_of (handleInterrupted m s)) = streamRef s"
  "sessionPromiseRef (state_of (handleInterrupted m s)) = sessionPromiseRef s"
  by (simp_all add: handleInterrupted_def stopAllSources_frame split: option.splits)

text \<open>
  Claim C9. The interruption block of the handler (lines 137 to 141) changes nothing
  but playback state: whatever the message and the state, and whether or not a
  \<open>stop\<close> throws, the transcript entries, both pending buffers and the session state
  (phase and error message) are the same afterwards; so they are after the whole handler
  has run on an interruption event.
\<close>

theorem interrupted_changes_playback_only:
  "entries (state_of (handleInterrupted message s)) = entries s \<and>
   currentInput (state_of (handleInterrupted message s)) = currentInput s \<and>
   currentOutput (state_of (handleInterrupted message s)) = currentOutput s \<and>
   sessionState (state_of (handleInterrupted message s)) = sessionState s \<and>
   entries (state_of (onmessage now clock interruptedEvent s)) = entries s \<and>
   currentInput (state_of (onmessage now clock interruptedEvent s)) = currentInput s \<and>
   currentOutput (state_of (onmessage now clock interruptedEvent s)) = currentOutput s \<and>
   sessionState (state_of (onmessage now clock interruptedEvent s)) = sessionState s"
  by (simp add: handleInterrupted_frame onmessage_interruptedEvent stopAllSources_frame)

section \<open>Interruption\<close>

lemma live_started_initialState: "live_started initialState"
  by (simp add: live_started_def initialState_def)

lemma live_started_enqueue: "live_started s \<Longrightarrow> live_started (enqueue clock b s)"
  by (auto simp: live_started_def enqueue_def scheduleBuffer_def advanceCursor_def set_add_def
      Let_def nth_append)

lemma live_started_enqueue_all: "live_started s \<Longrightarrow> live_started (enqueue_all ops s)"
  by (induction ops arbitrary: s) (auto simp: live_started_enqueue)

lemma live_started_onended: "live_started s \<Longrightarrow> live_started (onended i s)"
  by (auto simp: live_started_def onended_def)

lemma forEach_stop_started:
  "\<forall>i \<in> set ids. i < length (heap s) \<and> startedAt (heap s ! i) \<noteq> None \<Longrightarrow>
   \<exists>h. forEach_stop ids s = Returned (s\<lparr>heap := h\<rparr>) \<and> length h = length (heap s) \<and>
       (\<forall>j < length h. h ! j =
          (if j \<in> set ids then (heap s ! j)\<lparr>stopped := True\<rparr> else heap s ! j))"
proof (induction ids arbitrary: s)
  case Nil
  show ?case by (rule exI [of _ "heap s"]) simp
next
  case (Cons i ids)
  let ?s1 = "s\<lparr>heap := (heap s)[i := (heap s ! i)\<lparr>stopped := True\<rparr>]\<rparr>"
  have st: "stop i s = Returned ?s1" using Cons.prems by (simp add: stop_def)
  have "\<forall>j \<in> set ids. j < length (heap ?s1) \<and> startedAt (heap ?s1 ! j) \<noteq> None"
    using Cons.prems by (auto simp: nth_list_update)
  from Cons.IH [OF this] obtain h where h: "forEach_stop ids ?s1 = Returned (?s1\<lparr>heap := h\<rparr>)"
      "length h = length (heap ?s1)"
      "\<forall>j < length h. h ! j =
          (if j \<in> set ids then (heap ?s1 ! j)\<lparr>stopped := True\<rparr> else heap ?s1 ! j)"
    by blast
  have "forEach_stop (i # ids) s = Returned (s\<lparr>heap := h\<rparr>)"
    using st h(1) by simp
  moreover have "length h = length (heap s)" using h(2) by simp
  moreover have "\<forall>j < length h. h ! j =
      (if j \<in> set (i # ids) then (heap s ! j)\<lparr>stopped := True\<rparr> else heap s ! j)"
    using h(2,3) Cons.prems by (auto simp: nth_list_update)
  ultimately show ?case by blast
qed

lemma stopAllSources_live_started:
  assumes "live_started s"
  shows "\<exists>h. stopAllSources s = Returned (s\<lparr>heap := h, sourcesRef := [], nextStartTimeRef := 0\<rparr>) \<and>
       length h = length (heap s) \<and>
       (\<forall>j < length h. h ! j =
          (if j \<in> set (sourcesRef s) then (heap s ! j)\<lparr>stopped := True\<rparr> else heap s ! j))"
proof -
  from assms forEach_stop_started [of "sourcesRef s" s]
  obtain h where h: "forEach_stop (sourcesRef s) s = Returned (s\<lparr>heap := h\<rparr>)"
      "length h = length (heap s)"
      "\<forall>j < length h. h ! j =
          (if j \<in> set (sourcesRef s) then (heap s ! j)\<lparr>stopped := True\<rparr> else heap s ! j)"
    unfolding live_started_def by blast
  then show ?thesis by (intro exI [of _ h]) (simp add: stopAllSources_def)
qed

lemma stopAllSources_empty:
  "sourcesRef s = [] \<Longrightarrow> stopAllSources s = Returned (s\<lparr>nextStartTimeRef := 0\<rparr>)"
  by (cases s) (simp add: stopAllSources_def)

text \<open>
  Claim C3. After any sequence of enqueue operations (from a state whose live sources
  have been started, as they always are), the handler run on an interruption event
  returns without an error; every source that was in the live set has received a stop,
  the live set is empty and \<open>nextStartTimeRef\<close> is 0; a second interruption returns
  the same state again, without an error. With an empty live set the handler returns
  without an error as well, and does no more than set the cursor to 0.
\<close>

theorem interrupt_stops_and_clears:
  "(live_started s \<longrightarrow>
      (\<exists>s'. onmessage now clock interruptedEvent (enqueue_all ops s) = Returned s' \<and>
         (\<forall>i \<in> set (sourcesRef (enqueue_all ops s)). stopped (heap s' ! i)) \<and>
         sourcesRef s' = [] \<and> nextStartTimeRef s' = 0 \<and>
         onmessage now2 clock2 interruptedEvent s' = Returned s')) \<and>
   (sourcesRef s = [] \<longrightarrow>
      onmessage now clock interruptedEvent s = Returned (s\<lparr>nextStartTimeRef := 0\<rparr>))"
proof (intro conjI impI)
  assume "live_started s"
  then have "live_started (enqueue_all ops s)" by (rule live_started_enqueue_all)
  from stopAllSources_live_started [OF this]
  obtain h where h:
      "stopAllSources (enqueue_all ops s) =
         Returned ((enqueue_all ops s)\<lparr>heap := h, sourcesRef := [], nextStartTimeRef := 0\<rparr>)"
      "length h = length (heap (enqueue_all ops s))"
      "\<forall>j < length h. h ! j =
          (if j \<in> set (sourcesRef (enqueue_all ops s))
           then (heap (enqueue_all ops s) ! j)\<lparr>stopped := True\<rparr>
           else heap (enqueue_all ops s) ! j)"
    by blast
  let ?s' = "(enqueue_all ops s)\<lparr>heap := h, sourcesRef := [], nextStartTimeRef := 0\<rparr>"
  have "\<forall>i \<in> set (sourcesRef (enqueue_all ops s)). stopped (heap ?s' ! i)"
    using h(2,3) \<open>live_started (enqueue_all ops s)\<close> by (auto simp: live_started_def)
  moreover have "stopAllSources ?s' = Returned ?s'"
    by (simp add: stopAllSources_empty)
  ultimately show "\<exists>s'. onmessage now clock interruptedEvent (enqueue_all ops s) = Returned s' \<and>
         (\<forall>i \<in> set (sourcesRef (enqueue_all ops s)). stopped (heap s' ! i)) \<and>
         sourcesRef s' = [] \<and> nextStartTimeRef s' = 0 \<and>
         onmessage now2 clock2 interruptedEvent s' = Returned s'"
    using h(1) by (intro exI [of _ ?s']) (simp add: onmessage_interruptedEvent)
next
  assume "sourcesRef s = []"
  then show "onmessage now clock interruptedEvent s = Returned (s\<lparr>nextStartTimeRef := 0\<rparr>)"
    by (simp add: onmessage_interruptedEvent stopAllSources_empty)
qed

lemma enqueue_two_chunks:
  "enqueue_all [(0, chunk [0, 0, 0]), (1, chunk [0, 0, 0, 0, 0, 0])] initialState =
     initialState
       \<lparr>nextStartTimeRef := 1 + 6 / 24000,
        sourcesRef := [0, 1],
        heap := [\<lparr>buffer = chunk [0, 0, 0], startedAt = Some 0, stopped = False\<rparr>,
                 \<lparr>buffer = chunk [0, 0, 0, 0, 0, 0], startedAt = Some 1, stopped = False\<rparr>]\<rparr>"
  by (simp add: enqueue_def scheduleBuffer_def advanceCursor_def set_add_def initialState_def
      duration_def chunk_def Let_def)

text \<open>Two chunks enqueued from the initial state, then an interruption.\<close>

theorem interrupt_stops_and_clears_witness:
  "live_started initialState \<and>
   sourcesRef (enqueue_all [(0, chunk [0, 0, 0]), (1, chunk [0, 0, 0, 0, 0, 0])] initialState) = [0, 1] \<and>
   (\<exists>s'. onmessage 0 2 interruptedEvent
            (enqueue_all [(0, chunk [0, 0, 0]), (1, chunk [0, 0, 0, 0, 0, 0])] initialState) =
            Returned s' \<and>
      stopped (heap s' ! 0) \<and> stopped (heap s' ! 1) \<and>
      sourcesRef s' = [] \<and> nextStartTimeRef s' = 0 \<and>
      onmessage 0 3 interruptedEvent s' = Returned s') \<and>
   sourcesRef initialState = [] \<and>
   onmessage 0 2 interruptedEvent initialState = Returned (initialState\<lparr>nextStartTimeRef := 0\<rparr>)"
proof -
  let ?ops = "[(0, chunk [0, 0, 0]), (1, chunk [0, 0, 0, 0, 0, 0])]"
  have e: "sourcesRef initialState = []" by (simp add: initialState_def)
  have l: "sourcesRef (enqueue_all ?ops initialState) = [0, 1]"
    unfolding enqueue_two_chunks by simp
  from interrupt_stops_and_clears [of initialState 0 2 ?ops 0 3] live_started_initialState e
  obtain s' where s': "onmessage 0 2 interruptedEvent (enqueue_all ?ops initialState) = Returned s'"
      "\<forall>i \<in> set (sourcesRef (enqueue_all ?ops initialState)). stopped (heap s' ! i)"
      "sourcesRef s' = []" "nextStartTimeRef s' = 0"
      "onmessage 0 3 interruptedEvent s' = Returned s'"
    and i: "onmessage 0 2 interruptedEvent initialState = Returned (initialState\<lparr>nextStartTimeRef := 0\<rparr>)"
    by blast
  from s'(2) have "stopped (heap s' ! 0) \<and> stopped (heap s' ! 1)" unfolding l by simp
  with s' i e l live_started_initialState show ?thesis by blast
qed

theorem interrupted_changes_playback_only_witness:
  "entries (state_of (onmessage 0 2 interruptedEvent
      (enqueue_all [(0, chunk [0, 0, 0])] s_hi))) = [] \<and>
   currentInput (state_of (onmessage 0 2 interruptedEvent
      (enqueue_all [(0, chunk [0, 0, 0])] s_hi))) = ''Hi'' \<and>
   currentOutput (state_of (onmessage 0 2 interruptedEvent
      (enqueue_all [(0, chunk [0, 0, 0])] s_hi))) = ''Hello there'' \<and>
   sessionState (state_of (onmessage 0 2 interruptedEvent
      (enqueue_all [(0, chunk [0, 0, 0])] s_hi))) = idleState"
  using interrupted_changes_playback_only [of interruptedEvent "enqueue_all [(0, chunk [0, 0, 0])] s_hi" 0 2]
  by (simp add: s_hi_def initialState_def enqueue_def scheduleBuffer_def advanceCursor_def Let_def)

section \<open>What the log holds\<close>

lemma entries_scheduleBuffer [simp]: "entries (scheduleBuffer b s) = entries s"
  by (simp add: scheduleBuffer_def Let_def)

lemma entries_advanceCursor [simp]: "entries (advanceCursor c s) = entries s"
  by (simp add: advanceCursor_def)

lemma entries_onmessage:
  "entries (state_of (onmessage now clock message s)) =
     entries (handleTurnComplete now message (handleTranscription message s))"
  by (simp add: onmessage_def onmessage_before_await_def onmessage_after_await_def Let_def
      handleInterrupted_frame split: sum.splits option.splits promise.splits)

lemma entries_handleTranscription [simp]:
  "entries (handleTranscription message s) = entries s"
  by (simp add: handleTranscription_def split: option.splits)

lemma entries_handleTurnComplete:
  "entries (handleTurnComplete now message s) =
     entries s @
     (case serverContent message of
        None \<Rightarrow> []
      | Some sc \<Rightarrow>
          if turnComplete sc then
            (if trim (currentInput s) = [] then []
             else [\<lparr>id' = uuids s, sender = User, text' = currentInput s, timestamp = now\<rparr>]) @
            (if trim (currentOutput s) = [] then []
             else [\<lparr>id' = (if trim (currentInput s) = [] then uuids s else Suc (uuids s)),
                    sender = Model, text' = currentOutput s, timestamp = now\<rparr>])
          else [])"
  by (simp add: handleTurnComplete_def entries_completeTurn split: option.splits)

text \<open>
  Claim C10. Whatever the message and the state, the entries the handler appends to the
  log each have a text with at least one character that is not white space, and that
  text is exactly the content of the sender's pending buffer when the turn completed
  (after the message's own delta was appended), white space at its ends included.
\<close>

theorem logged_text_is_untrimmed_and_not_blank:
  "\<exists>new. entries (state_of (onmessage now clock message s)) = entries s @ new \<and>
     (\<forall>e \<in> set new.
        (\<exists>c \<in> set (text' e). \<not> is_ws c) \<and>
        text' e = (case sender e of
                     User \<Rightarrow> currentInput (handleTranscription message s)
                   | Model \<Rightarrow> currentOutput (handleTranscription message s)))"
proof -
  let ?s1 = "handleTranscription message s"
  have "entries (state_of (onmessage now clock message s)) =
      entries s @ drop (length (entries s)) (entries (handleTurnComplete now message ?s1))"
    by (simp add: entries_onmessage entries_handleTurnComplete)
  moreover have "\<forall>e \<in> set (drop (length (entries s)) (entries (handleTurnComplete now message ?s1))).
        (\<exists>c \<in> set (text' e). \<not> is_ws c) \<and>
        text' e = (case sender e of User \<Rightarrow> currentInput ?s1 | Model \<Rightarrow> currentOutput ?s1)"
    by (auto simp: entries_handleTurnComplete trim_eq_Nil_iff split: option.splits if_splits)
  ultimately show ?thesis by blast
qed

theorem logged_text_is_untrimmed_and_not_blank_witness:
  "entries (state_of (onmessage 1700 0 turnCompleteEvent s_padded)) =
     [\<lparr>id' = 0, sender = User, text' = '' hi '', timestamp = 1700\<rparr>] \<and>
   (\<exists>c \<in> set '' hi ''. \<not> is_ws c) \<and> trim '' hi '' = ''hi''"
proof -
  have e: "entries (state_of (onmessage 1700 0 turnCompleteEvent s_padded)) =
     [\<lparr>id' = 0, sender = User, text' = '' hi '', timestamp = 1700\<rparr>]"
    by (simp add: onmessage_turnCompleteEvent entries_completeTurn s_padded_def initialState_def
        trim_def is_ws_def)
  from logged_text_is_untrimmed_and_not_blank [of 1700 0 turnCompleteEvent s_padded]
  obtain new where n: "entries (state_of (onmessage 1700 0 turnCompleteEvent s_padded)) =
      entries s_padded @ new"
    "\<forall>e \<in> set new. (\<exists>c \<in> set (text' e). \<not> is_ws c) \<and>
        text' e = (case sender e of
                     User \<Rightarrow> currentInput (handleTranscription turnCompleteEvent s_padded)
                   | Model \<Rightarrow> currentOutput (handleTranscription turnCompleteEvent s_padded))"
    by blast
  from n(1) e have "new = [\<lparr>id' = 0, sender = User, text' = '' hi '', timestamp = 1700\<rparr>]"
    by (simp add: s_padded_def initialState_def)
  with n(2) have "\<exists>c \<in> set (text' \<lparr>id' = 0, sender = User, text' = '' hi '', timestamp = 1700\<rparr>).
      \<not> is_ws c"
    by (metis list.set_intros(1))
  then have "\<exists>c \<in> set '' hi ''. \<not> is_ws c" by simp
  moreover have "trim '' hi '' = ''hi''" by (simp add: trim_def is_ws_def)
  ultimately show ?thesis using e by blast
qed

section \<open>Scheduling\<close>

lemma duration_nonneg: "0 \<le> duration b"
  by (simp add: duration_def)

lemma enqueue_fields:
  "nextStartTimeRef (enqueue clock b s) = max (nextStartTimeRef s) clock + duration b"
  "heap (enqueue clock b s) =
     heap s @ [\<lparr>buffer = b, startedAt = Some (max (nextStartTimeRef s) clock), stopped = False\<rparr>]"
  by (simp_all add: enqueue_def scheduleBuffer_def advanceCursor_def Let_def)

lemma enqueue_states_not_Nil [simp]: "enqueue_states ops s \<noteq> []"
  by (cases "(ops, s)" rule: enqueue_states.cases) auto

lemma last_enqueue_states: "last (enqueue_states ops s) = enqueue_all ops s"
  by (induction ops s rule: enqueue_states.induct) auto

lemma length_enqueue_states: "length (enqueue_states ops s) = Suc (length ops)"
  by (induction ops s rule: enqueue_states.induct) auto

lemma enqueue_states_ge:
  "s' \<in> set (enqueue_states ops s) \<Longrightarrow> nextStartTimeRef s \<le> nextStartTimeRef s'"
proof (induction ops s rule: enqueue_states.induct)
  case (1 s)
  then show ?case by simp
next
  case (2 clock audioBuffer ops s)
  have "nextStartTimeRef s \<le> nextStartTimeRef (enqueue clock audioBuffer s)"
    using duration_nonneg [of audioBuffer] by (simp add: enqueue_fields)
  with 2 show ?case by fastforce
qed

lemma sorted_enqueue_states: "sorted (map nextStartTimeRef (enqueue_states ops s))"
proof (induction ops s rule: enqueue_states.induct)
  case (1 s)
  show ?case by simp
next
  case (2 clock audioBuffer ops s)
  have "nextStartTimeRef s \<le> nextStartTimeRef (enqueue clock audioBuffer s)"
    using duration_nonneg [of audioBuffer] by (simp add: enqueue_fields)
  then have "nextStartTimeRef s \<le> nextStartTimeRef s'"
    if "s' \<in> set (enqueue_states ops (enqueue clock audioBuffer s))" for s'
    using enqueue_states_ge [OF that] by simp
  with 2 show ?case by auto
qed

lemma length_starts: "length (starts ops t) = length ops"
  by (induction ops t rule: starts.induct) auto

lemma starts_ge: "x \<in> set (starts ops t) \<Longrightarrow> t \<le> x"
proof (induction ops t rule: starts.induct)
  case (1 t)
  then show ?case by simp
next
  case (2 clock audioBuffer ops t)
  have "t \<le> max t clock + duration audioBuffer"
    using duration_nonneg [of audioBuffer] by simp
  with 2 show ?case by fastforce
qed

lemma starts_ge_clock: "j < length ops \<Longrightarrow> fst (ops ! j) \<le> starts ops t ! j"
proof (induction ops t arbitrary: j rule: starts.induct)
  case (1 t)
  then show ?case by simp
next
  case (2 clock audioBuffer ops t)
  then show ?case by (cases j) auto
qed

lemma starts_no_overlap:
  "i < j \<Longrightarrow> j < length ops \<Longrightarrow>
   starts ops t ! i + duration (snd (ops ! i)) \<le> starts ops t ! j"
proof (induction ops t arbitrary: i j rule: starts.induct)
  case (1 t)
  then show ?case by simp
next
  case (2 clock audioBuffer ops t)
  from "2.prems" obtain j' where j: "j = Suc j'" "j' < length ops" by (cases j) auto
  show ?case
  proof (cases i)
    case 0
    have "starts ops (max t clock + duration audioBuffer) ! j' \<in>
        set (starts ops (max t clock + duration audioBuffer))"
      using j(2) by (simp add: length_starts)
    from starts_ge [OF this] show ?thesis using 0 j by simp
  next
    case (Suc i')
    with "2.prems" j "2.IH" [of i' j'] show ?thesis by simp
  qed
qed

lemma heap_enqueue_all:
  "heap (enqueue_all ops s) =
     heap s @ map (\<lambda>(t, clock, audioBuffer).
                     \<lparr>buffer = audioBuffer, startedAt = Some t, stopped = False\<rparr>)
                (zip (starts ops (nextStartTimeRef s)) ops)"
proof (induction ops arbitrary: s)
  case Nil
  show ?case by simp
next
  case (Cons op ops)
  obtain clock audioBuffer where op: "op = (clock, audioBuffer)" by (cases op)
  show ?case
    by (simp add: op Cons.IH enqueue_fields)
qed

lemma activeState_reached:
  "andThen (startSession (Some ''key'') (Inr \<lparr>tracks = [Live]\<rparr>)
              (Fulfilled \<lparr>sessionOpen = True\<rparr>) initialState)
     (\<lambda>s. Returned (onopen s)) = Returned activeState"
  by (simp add: startSession_def Let_def onopen_def activeState_def initialState_def idleState_def)

lemma decodeChunk_three_zeros: "decodeChunk ''AAAAAAAA'' = Fulfilled (chunk [0, 0, 0])"
  by (simp add: decodeChunk_def b64_quad_def b64_index_def decodeToAudioBuffer_def chunk_def
      word_cat_eq)

lemma onmessage_audioChunk_enqueue:
  "payload \<noteq> [] \<Longrightarrow> audioContextsRef s \<noteq> None \<Longrightarrow>
   decodeChunk payload = Fulfilled audioBuffer \<Longrightarrow>
   onmessage now clock (audioChunk payload) s = Returned (enqueue clock audioBuffer s)"
  by (simp add: onmessage_audioChunk enqueue_def)

text \<open>
  Claim C1. The handler, run on a chunk of audio that decodes, is one enqueue operation.
  For every sequence of enqueue operations, whatever the clock readings and the buffers
  (a duration is a sample count over a rate, so it is never negative), and from whatever
  state: the values of \<open>nextStartTimeRef\<close> before, between and after the operations never
  decrease; and the nodes the operations add to the heap are started at times \<open>ts\<close>
  such that each chunk starts no earlier than the clock reading of its own operation, and
  no earlier than the start of any chunk before it plus that chunk's duration.
\<close>

theorem enqueue_never_overlaps:
  "(payload \<noteq> [] \<and> audioContextsRef s \<noteq> None \<and>
      decodeChunk payload = Fulfilled audioBuffer \<longrightarrow>
      onmessage now clock (audioChunk payload) s = Returned (enqueue clock audioBuffer s)) \<and>
   sorted (map nextStartTimeRef (enqueue_states ops s)) \<and>
   last (enqueue_states ops s) = enqueue_all ops s \<and>
   (\<exists>ts. length ts = length ops \<and>
      heap (enqueue_all ops s) =
        heap s @ map (\<lambda>(t, clock, audioBuffer).
                        \<lparr>buffer = audioBuffer, startedAt = Some t, stopped = False\<rparr>)
                   (zip ts ops) \<and>
      (\<forall>j < length ops.
         fst (ops ! j) \<le> ts ! j \<and>
         (\<forall>i < j. ts ! i + duration (snd (ops ! i)) \<le> ts ! j)))"
proof -
  let ?ts = "starts ops (nextStartTimeRef s)"
  have "\<forall>j < length ops.
         fst (ops ! j) \<le> ?ts ! j \<and>
         (\<forall>i < j. ?ts ! i + duration (snd (ops ! i)) \<le> ?ts ! j)"
    by (simp add: starts_ge_clock starts_no_overlap)
  then show ?thesis
    using length_starts [of ops "nextStartTimeRef s"] heap_enqueue_all [of ops s]
    by (intro conjI exI [of _ ?ts])
      (simp_all add: sorted_enqueue_states last_enqueue_states onmessage_audioChunk_enqueue)
qed

lemma enqueue_states_three_chunks:
  "map nextStartTimeRef (enqueue_states three_chunks initialState) =
     [0, 1 / 8000, 3 / 8000, 5 + 1 / 24000]"
  by (simp add: three_chunks_def enqueue_fields initialState_def duration_def chunk_def)

lemma heap_three_chunks:
  "map startedAt (heap (enqueue_all three_chunks initialState)) =
     [Some 0, Some (1 / 8000), Some 5]"
  by (simp add: three_chunks_def enqueue_fields initialState_def duration_def chunk_def)

theorem enqueue_never_overlaps_witness:
  "''AAAAAAAA'' \<noteq> [] \<and> audioContextsRef activeState \<noteq> None \<and>
   decodeChunk ''AAAAAAAA'' = Fulfilled (chunk [0, 0, 0]) \<and>
   onmessage 0 0 (audioChunk ''AAAAAAAA'') activeState =
     Returned (enqueue 0 (chunk [0, 0, 0]) activeState) \<and>
   map nextStartTimeRef (enqueue_states three_chunks initialState) =
     [0, 1 / 8000, 3 / 8000, 5 + 1 / 24000] \<and>
   sorted [0, 1 / 8000, 3 / 8000, 5 + 1 / 24000 :: real] \<and>
   map startedAt (heap (enqueue_all three_chunks initialState)) =
     [Some 0, Some (1 / 8000), Some 5] \<and>
   map (duration \<circ> snd) three_chunks = [1 / 8000, 1 / 4000, 1 / 24000]"
proof -
  have a: "''AAAAAAAA'' \<noteq> [] \<and> audioContextsRef activeState \<noteq> None"
    by (simp add: activeState_def initialState_def)
  from enqueue_never_overlaps [of "''AAAAAAAA''" activeState "chunk [0, 0, 0]" 0 0 "[]"]
    a decodeChunk_three_zeros
  have m: "onmessage 0 0 (audioChunk ''AAAAAAAA'') activeState =
     Returned (enqueue 0 (chunk [0, 0, 0]) activeState)" by blast
  from enqueue_never_overlaps [of "[]" initialState "chunk []" 0 0 three_chunks]
  have "sorted (map nextStartTimeRef (enqueue_states three_chunks initialState))" by blast
  then have "sorted [0, 1 / 8000, 3 / 8000, 5 + 1 / 24000 :: real]"
    by (simp only: enqueue_states_three_chunks)
  moreover have "map (duration \<circ> snd) three_chunks = [1 / 8000, 1 / 4000, 1 / 24000]"
    by (simp add: three_chunks_def duration_def chunk_def)
  ultimately show ?thesis
    using enqueue_states_three_chunks heap_three_chunks a m decodeChunk_three_zeros by blast
qed

section \<open>A chunk that does not decode\<close>

lemma handleTranscription_frame [simp]:
  "heap (handleTranscription m s) = heap s"
  "sourcesRef (handleTranscription m s) = sourcesRef s"
  "sessionState (handleTranscription m s) = sessionState s"
  "nextStartTimeRef (handleTranscription m s) = nextStartTimeRef s"
  "audioContextsRef (handleTranscription m s) = audioContextsRef s"
  "streamRef (handleTranscription m s) = streamRef s"
  "sessionPromiseRef (handleTranscription m s) = sessionPromiseRef s"
  by (simp_all add: handleTranscription_def split: option.splits)

lemma addEntry_frame [simp]:
  "heap (addEntry now sndr txt s) = heap s"
  "sourcesRef (addEntry now sndr txt s) = sourcesRef s"
  "sessionState (addEntry now sndr txt s) = sessionState s"
  "nextStartTimeRef (addEntry now sndr txt s) = nextStartTimeRef s"
  "audioContextsRef (addEntry now sndr txt s) = audioContextsRef s"
  "streamRef (addEntry now sndr txt s) = streamRef s"
  "sessionPromiseRef (addEntry now sndr txt s) = sessionPromiseRef s"
  by (simp_all add: addEntry_def)

lemma handleTurnComplete_frame [simp]:
  "heap (handleTurnComplete now m s) = heap s"
  "sourcesRef (handleTurnComplete now m s) = sourcesRef s"
  "sessionState (handleTurnComplete now m s) = sessionState s"
  "nextStartTimeRef (handleTurnComplete now m s) = nextStartTimeRef s"
  "audioContextsRef (handleTurnComplete now m s) = audioContextsRef s"
  "streamRef (handleTurnComplete now m s) = streamRef s"
  "sessionPromiseRef (handleTurnComplete now m s) = sessionPromiseRef s"
  by (simp_all add: handleTurnComplete_def completeTurn_def flushInput_def flushOutput_def
      split: option.splits)

lemma decodeChunk_Rejected_iff:
  "decodeChunk payload = Rejected e \<longleftrightarrow>
     decode payload = Inl e \<or>
     (\<exists>bytes. decode payload = Inr bytes \<and> odd (length bytes) \<and> e = DecodeError)"
  by (auto simp: decodeChunk_def decodeToAudioBuffer_def split: sum.splits)

text \<open>
  Claim C6. A message carries an audio payload while a session is up, and the payload
  does not decode: it is not base64, or it decodes to an odd number of bytes. Then the
  handler ends with that error and has created and started no source node (the heap is
  as before), has added nothing to the live set, has not touched the session state
  (phase and error message), and has released none of the session's resources
  (transport, microphone stream, audio contexts). What the handler did before line 125
  stands (transcript updates, the cursor moved up to the clock); nothing after it runs.
\<close>

theorem decode_failure_drops_the_chunk_only:
  "base64Audio message = Inr (Some payload) \<and> payload \<noteq> [] \<and> audioContextsRef s \<noteq> None \<and>
   (decode payload = Inl e \<or> (decode payload = Inr bytes \<and> odd (length bytes) \<and> e = DecodeError))
   \<longrightarrow>
   (\<exists>s'. onmessage now clock message s = Threw e s' \<and>
      heap s' = heap s \<and> sourcesRef s' = sourcesRef s \<and>
      sessionState s' = sessionState s \<and>
      sessionPromiseRef s' = sessionPromiseRef s \<and> streamRef s' = streamRef s \<and>
      audioContextsRef s' = audioContextsRef s)"
proof (intro impI, elim conjE)
  assume b: "base64Audio message = Inr (Some payload)" and p: "payload \<noteq> []"
    and a: "audioContextsRef s \<noteq> None"
    and d: "decode payload = Inl e \<or>
      (decode payload = Inr bytes \<and> odd (length bytes) \<and> e = DecodeError)"
  from d have r: "decodeChunk payload = Rejected e"
    by (auto simp: decodeChunk_Rejected_iff)
  let ?s' = "advanceCursor clock (handleTurnComplete now message (handleTranscription message s))"
  have "onmessage now clock message s = Threw e ?s'"
    using b p a r
    by (simp add: onmessage_def onmessage_before_await_def onmessage_after_await_def Let_def)
  then show "\<exists>s'. onmessage now clock message s = Threw e s' \<and>
      heap s' = heap s \<and> sourcesRef s' = sourcesRef s \<and>
      sessionState s' = sessionState s \<and>
      sessionPromiseRef s' = sessionPromiseRef s \<and> streamRef s' = streamRef s \<and>
      audioContextsRef s' = audioContextsRef s"
    by (intro exI [of _ ?s']) (simp add: advanceCursor_def)
qed

lemma base64Audio_audioChunk: "base64Audio (audioChunk payload) = Inr (Some payload)"
  by (simp add: base64Audio_def audioChunk_def emptyContent_def)

lemma decode_malformed: "decode ''AA=A'' = Inl MalformedDataError"
  by (simp add: b64_quad_def b64_index_def)

lemma decode_three_bytes: "decode ''AAAA'' = Inr [0, 0, 0]"
  by (simp add: b64_quad_def b64_index_def)

lemma decodeChunk_malformed: "decodeChunk ''AA=A'' = Rejected MalformedDataError"
  unfolding decodeChunk_def decode_malformed by simp

lemma decodeChunk_three_bytes: "decodeChunk ''AAAA'' = Rejected DecodeError"
  unfolding decodeChunk_def decode_three_bytes by (simp add: decodeToAudioBuffer_def)

text \<open>A payload with a misplaced padding character, and one of three bytes, on an
  active session.\<close>

theorem decode_failure_drops_the_chunk_only_witness:
  "base64Audio (audioChunk ''AA=A'') = Inr (Some ''AA=A'') \<and> ''AA=A'' \<noteq> [] \<and>
   audioContextsRef activeState \<noteq> None \<and> decode ''AA=A'' = Inl MalformedDataError \<and>
   onmessage 0 1 (audioChunk ''AA=A'') activeState =
     Threw MalformedDataError (activeState\<lparr>nextStartTimeRef := 1\<rparr>) \<and>
   base64Audio (audioChunk ''AAAA'') = Inr (Some ''AAAA'') \<and>
   decode ''AAAA'' = Inr [0, 0, 0] \<and> odd (length [0, 0, 0 :: 8 word]) \<and>
   onmessage 0 1 (audioChunk ''AAAA'') activeState =
     Threw DecodeError (activeState\<lparr>nextStartTimeRef := 1\<rparr>)"
proof -
  have a: "audioContextsRef activeState \<noteq> None" by (simp add: activeState_def initialState_def)
  from decode_failure_drops_the_chunk_only
    [of "audioChunk ''AA=A''" "''AA=A''" activeState MalformedDataError "[]" 0 1]
    base64Audio_audioChunk [of "''AA=A''"] a decode_malformed
  obtain s1 where s1: "onmessage 0 1 (audioChunk ''AA=A'') activeState = Threw MalformedDataError s1"
    by auto
  have "s1 = activeState\<lparr>nextStartTimeRef := 1\<rparr>"
    using s1 a
    by (simp add: onmessage_audioChunk decodeChunk_malformed advanceCursor_def
        activeState_def initialState_def)
  with s1 have m: "onmessage 0 1 (audioChunk ''AA=A'') activeState =
     Threw MalformedDataError (activeState\<lparr>nextStartTimeRef := 1\<rparr>)" by simp
  from decode_failure_drops_the_chunk_only
    [of "audioChunk ''AAAA''" "''AAAA''" activeState DecodeError "[0, 0, 0]" 0 1]
    base64Audio_audioChunk [of "''AAAA''"] a decode_three_bytes
  obtain s2 where s2: "onmessage 0 1 (audioChunk ''AAAA'') activeState = Threw DecodeError s2"
    by auto
  have "s2 = activeState\<lparr>nextStartTimeRef := 1\<rparr>"
    using s2 a
    by (simp add: onmessage_audioChunk decodeChunk_three_bytes advanceCursor_def
        activeState_def initialState_def)
  with s2 have d: "onmessage 0 1 (audioChunk ''AAAA'') activeState =
     Threw DecodeError (activeState\<lparr>nextStartTimeRef := 1\<rparr>)" by simp
  show ?thesis
    using m d a base64Audio_audioChunk decode_malformed decode_three_bytes by simp
qed

section \<open>Teardown: what it guarantees\<close>

lemma andThen_eq_Returned:
  "andThen r f = Returned s' \<longleftrightarrow> (\<exists>s1. r = Returned s1 \<and> f s1 = Returned s')"
  by (cases r) auto

lemma andThen_eq_Threw:
  "andThen r f = Threw e s' \<longleftrightarrow>
     r = Threw e s' \<or> (\<exists>s1. r = Returned s1 \<and> f s1 = Threw e s')"
  by (cases r) auto

lemma closeSession_Returned:
  "closeSession s = Returned s1 \<Longrightarrow> s1 = s\<lparr>sessionPromiseRef := None\<rparr>"
  by (cases s) (auto simp: closeSession_def split: option.splits promise.splits)

lemma closeSession_Threw: "closeSession s = Threw e s1 \<Longrightarrow> s1 = s"
  by (auto simp: closeSession_def split: option.splits promise.splits)

lemma stopStream_eq: "stopStream s = Returned (s\<lparr>streamRef := None\<rparr>)"
  by (cases s) (auto simp: stopStream_def split: option.splits)

lemma closeContexts_Returned:
  "closeContexts s = Returned s1 \<Longrightarrow> s1 = s\<lparr>audioContextsRef := None\<rparr>"
  by (cases s) (auto simp: closeContexts_def split: option.splits if_splits)

lemma closeContexts_Threw:
  "closeContexts s = Threw e s1 \<Longrightarrow> \<exists>c. s1 = s\<lparr>audioContextsRef := c\<rparr>"
  by (cases s) (auto simp: closeContexts_def split: option.splits if_splits)

lemma stopAllSources_Returned:
  "stopAllSources s = Returned s1 \<Longrightarrow>
   \<exists>h. s1 = s\<lparr>heap := h, sourcesRef := [], nextStartTimeRef := 0\<rparr>"
  using forEach_stop_heap_only [of "sourcesRef s" s]
  by (cases "forEach_stop (sourcesRef s) s") (auto simp: stopAllSources_def)

lemma stopAllSources_Threw:
  "stopAllSources s = Threw e s1 \<Longrightarrow> \<exists>h. s1 = s\<lparr>heap := h\<rparr>"
  using forEach_stop_heap_only [of "sourcesRef s" s]
  by (cases "forEach_stop (sourcesRef s) s") (auto simp: stopAllSources_def)

lemma cleanupSession_Returned:
  assumes "cleanupSession s = Returned s'"
  shows "\<exists>h. s' = s\<lparr>sessionPromiseRef := None, streamRef := None, audioContextsRef := None,
                      heap := h, sourcesRef := [], nextStartTimeRef := 0,
                      sessionState := idleState, currentInput := [], currentOutput := []\<rparr>"
proof -
  from assms obtain s1 s3 s4 where
      "closeSession s = Returned s1"
      "closeContexts (s1\<lparr>streamRef := None\<rparr>) = Returned s3"
      "stopAllSources s3 = Returned s4"
      "resetState s4 = Returned s'"
    unfolding cleanupSession_def andThen_eq_Returned stopStream_eq by auto
  then show ?thesis
    by (auto simp: resetState_def idleState_def
        dest!: closeSession_Returned closeContexts_Returned stopAllSources_Returned)
qed

lemma cleanupSession_torn_down: "cleanupSession s = Returned s' \<Longrightarrow> torn_down s'"
  by (auto simp: torn_down_def dest!: cleanupSession_Returned)

lemma torn_down_cleanupSession: "torn_down s \<Longrightarrow> cleanupSession s = Returned s"
  by (cases s)
    (simp add: torn_down_def cleanupSession_def closeSession_def stopStream_def
      closeContexts_def stopAllSources_def resetState_def idleState_def)

lemma cleanupSession_succeeds:
  assumes "steps_can_succeed s"
  shows "\<exists>s'. cleanupSession s = Returned s'"
proof -
  from assms obtain s1 where s1: "closeSession s = Returned s1"
    by (auto simp: steps_can_succeed_def closeSession_def split: option.splits promise.splits)
  then have e1: "s1 = s\<lparr>sessionPromiseRef := None\<rparr>" by (rule closeSession_Returned)
  let ?s2 = "s1\<lparr>streamRef := None\<rparr>"
  from assms e1 have s3: "closeContexts ?s2 = Returned (?s2\<lparr>audioContextsRef := None\<rparr>)"
    by (auto simp: steps_can_succeed_def closeContexts_def split: option.splits)
  let ?s3 = "?s2\<lparr>audioContextsRef := None\<rparr>"
  from assms e1 have "live_started ?s3"
    by (simp add: steps_can_succeed_def live_started_def)
  from stopAllSources_live_started [OF this] obtain s4 where "stopAllSources ?s3 = Returned s4"
    by blast
  with s1 s3 show ?thesis
    by (simp add: cleanupSession_def stopStream_eq resetState_def)
qed

lemma cleanupSession_Threw:
  assumes "cleanupSession s = Threw e s'"
  shows "sessionState s' = sessionState s \<and> currentInput s' = currentInput s \<and>
         currentOutput s' = currentOutput s \<and> sourcesRef s' = sourcesRef s \<and>
         nextStartTimeRef s' = nextStartTimeRef s"
proof -
  from assms consider
      "closeSession s = Threw e s'"
    | s1 where "closeSession s = Returned s1" "closeContexts (s1\<lparr>streamRef := None\<rparr>) = Threw e s'"
    | s1 s3 where "closeSession s = Returned s1"
        "closeContexts (s1\<lparr>streamRef := None\<rparr>) = Returned s3" "stopAllSources s3 = Threw e s'"
    unfolding cleanupSession_def andThen_eq_Threw andThen_eq_Returned stopStream_eq
    by (auto simp: resetState_def)
  then show ?thesis
  proof cases
    case 1
    then show ?thesis by (auto dest!: closeSession_Threw)
  next
    case 2
    then show ?thesis by (auto dest!: closeSession_Returned closeContexts_Threw)
  next
    case 3
    then show ?thesis
      by (auto dest!: closeSession_Returned closeContexts_Returned stopAllSources_Threw)
  qed
qed

text \<open>The teardown with its calls: the same outcome as \<open>cleanupSession\<close>, and the calls
  and the state of every way it can end.\<close>

lemma andThen_traced_Returned [simp]:
  "andThen_traced (cs, Returned s) f = (cs @ fst (f s), snd (f s))"
  by (simp add: andThen_traced_def split: prod.splits)

lemma andThen_traced_Threw [simp]: "andThen_traced (cs, Threw e s) f = (cs, Threw e s)"
  by (simp add: andThen_traced_def)

lemma snd_andThen_traced:
  "snd (andThen_traced r f) = andThen (snd r) (\<lambda>s. snd (f s))"
  by (cases r; cases "snd r") auto

lemma snd_forEach_stop_traced: "snd (forEach_stop_traced ids s) = forEach_stop ids s"
proof (induction ids arbitrary: s)
  case Nil
  show ?case by simp
next
  case (Cons i ids)
  show ?case by (cases "stop i s") (simp_all add: Cons.IH)
qed

lemma snd_cleanupSession_traced: "snd (cleanupSession_traced s) = cleanupSession s"
proof -
  have 1: "snd (closeSession_traced s) = closeSession s" for s
    by (simp add: closeSession_traced_def closeSession_def split: option.splits promise.splits)
  have 2: "(\<lambda>s. snd (stopStream_traced s)) = stopStream"
    by (rule ext) (simp add: stopStream_traced_def stopStream_def split: option.splits)
  have 3: "(\<lambda>s. snd (closeContexts_traced s)) = closeContexts"
    by (rule ext) (simp add: closeContexts_traced_def closeContexts_def split: option.splits)
  have 4: "(\<lambda>s. snd (stopAllSources_traced s)) = stopAllSources"
    by (rule ext)
      (simp add: stopAllSources_traced_def stopAllSources_def snd_andThen_traced
        snd_forEach_stop_traced)
  show ?thesis
    by (simp add: cleanupSession_traced_def cleanupSession_def snd_andThen_traced 1 2 3 4)
qed

lemma stopped_heap_Nil [simp]: "stopped_heap [] h = h"
  by (simp add: stopped_heap_def map_nth)

lemma length_stopped_heap [simp]: "length (stopped_heap ids h) = length h"
  by (simp add: stopped_heap_def)

lemma nth_stopped_heap:
  "j < length h \<Longrightarrow>
   stopped_heap ids h ! j = (if j \<in> set ids then (h ! j)\<lparr>stopped := True\<rparr> else h ! j)"
  by (simp add: stopped_heap_def)

lemma stopped_heap_Cons:
  "i < length h \<Longrightarrow>
   stopped_heap ids (h[i := (h ! i)\<lparr>stopped := True\<rparr>]) = stopped_heap (i # ids) h"
  by (rule nth_equalityI) (auto simp: nth_stopped_heap nth_list_update)

lemma started_stop:
  "started s i \<Longrightarrow> stop i s = Returned (s\<lparr>heap := (heap s)[i := (heap s ! i)\<lparr>stopped := True\<rparr>]\<rparr>)"
  by (simp add: started_def stop_def)

lemma not_started_stop: "\<not> started s k \<Longrightarrow> stop k s = Threw InvalidStateError s"
  by (simp add: started_def stop_def)

lemma started_after_stop:
  "i < length (heap s) \<Longrightarrow>
   started (s\<lparr>heap := (heap s)[i := (heap s ! i)\<lparr>stopped := True\<rparr>]\<rparr>) j = started s j"
  by (auto simp: started_def nth_list_update)

lemma forEach_stop_traced_all:
  "\<forall>i \<in> set ids. started s i \<Longrightarrow>
   forEach_stop_traced ids s =
     (map SourceStop ids, Returned (s\<lparr>heap := stopped_heap ids (heap s)\<rparr>))"
proof (induction ids arbitrary: s)
  case Nil
  show ?case by (cases s) simp
next
  case (Cons i ids)
  let ?s1 = "s\<lparr>heap := (heap s)[i := (heap s ! i)\<lparr>stopped := True\<rparr>]\<rparr>"
  from Cons.prems have i: "started s i" "i < length (heap s)" by (simp_all add: started_def)
  have "\<forall>j \<in> set ids. started ?s1 j"
    using Cons.prems i(2) by (simp add: started_after_stop)
  from Cons.IH [OF this] show ?case
    using i by (simp add: started_stop stopped_heap_Cons)
qed

lemma forEach_stop_traced_fails:
  "\<forall>i \<in> set pre. started s i \<Longrightarrow> \<not> started s k \<Longrightarrow>
   forEach_stop_traced (pre @ k # post) s =
     (map SourceStop (pre @ [k]), Threw InvalidStateError (s\<lparr>heap := stopped_heap pre (heap s)\<rparr>))"
proof (induction pre arbitrary: s)
  case Nil
  then show ?case by (cases s) (simp add: not_started_stop)
next
  case (Cons i pre)
  let ?s1 = "s\<lparr>heap := (heap s)[i := (heap s ! i)\<lparr>stopped := True\<rparr>]\<rparr>"
  from Cons.prems have i: "started s i" "i < length (heap s)" by (simp_all add: started_def)
  have "\<forall>j \<in> set pre. started ?s1 j" "\<not> started ?s1 k"
    using Cons.prems i(2) by (simp_all add: started_after_stop)
  from Cons.IH [OF this] show ?case
    using i by (simp add: started_stop stopped_heap_Cons)
qed


lemma steps_can_succeed_iff:
  "steps_can_succeed s \<longleftrightarrow> promise_not_rejected s \<and> contexts_open s \<and> live_started s"
  by (simp add: steps_can_succeed_def promise_not_rejected_def contexts_open_def)

lemma live_started_iff: "live_started s \<longleftrightarrow> (\<forall>i \<in> set (sourcesRef s). started s i)"
  by (simp add: live_started_def started_def)

lemma first_two_steps:
  "promise_not_rejected s \<Longrightarrow>
   andThen_traced (closeSession_traced s) stopStream_traced =
     (session_calls s @ track_calls s,
      Returned (s\<lparr>sessionPromiseRef := None, streamRef := None\<rparr>))"
  by (cases s)
    (auto simp: promise_not_rejected_def closeSession_traced_def stopStream_traced_def
      session_calls_def track_calls_def split: option.splits promise.splits)

lemma first_three_steps:
  "promise_not_rejected s \<Longrightarrow> contexts_open s \<Longrightarrow>
   andThen_traced (andThen_traced (closeSession_traced s) stopStream_traced) closeContexts_traced =
     (session_calls s @ track_calls s @ context_calls s,
      Returned (s\<lparr>sessionPromiseRef := None, streamRef := None, audioContextsRef := None\<rparr>))"
  by (cases s)
    (auto simp: first_two_steps contexts_open_def closeContexts_traced_def context_calls_def
      split: option.splits)

lemma started_released [simp]:
  "started (s\<lparr>sessionPromiseRef := None, streamRef := None, audioContextsRef := None\<rparr>) i =
     started s i"
  by (simp add: started_def)

lemma cleanupSession_traced_rejected:
  "sessionPromiseRef s = Some (Rejected e) \<Longrightarrow> cleanupSession_traced s = ([], Threw e s)"
  by (simp add: cleanupSession_traced_def closeSession_traced_def)

lemma cleanupSession_traced_input_closed:
  "promise_not_rejected s \<Longrightarrow> audioContextsRef s = Some ctxs \<Longrightarrow> closed (inputCtx ctxs) \<Longrightarrow>
   cleanupSession_traced s =
     (session_calls s @ track_calls s @ [ContextClose InputContext],
      Threw InvalidStateError (s\<lparr>sessionPromiseRef := None, streamRef := None\<rparr>))"
  by (simp add: cleanupSession_traced_def first_two_steps closeContexts_traced_def)

lemma cleanupSession_traced_output_closed:
  "promise_not_rejected s \<Longrightarrow> audioContextsRef s = Some ctxs \<Longrightarrow>
   \<not> closed (inputCtx ctxs) \<Longrightarrow> closed (outputCtx ctxs) \<Longrightarrow>
   cleanupSession_traced s =
     (session_calls s @ track_calls s @ [ContextClose InputContext, ContextClose OutputContext],
      Threw InvalidStateError
        (s\<lparr>sessionPromiseRef := None, streamRef := None,
           audioContextsRef := Some (ctxs\<lparr>inputCtx := (inputCtx ctxs)\<lparr>closed := True\<rparr>\<rparr>)\<rparr>))"
  by (simp add: cleanupSession_traced_def first_two_steps closeContexts_traced_def)

lemma cleanupSession_traced_stop_throws:
  assumes "promise_not_rejected s" "contexts_open s"
    and "sourcesRef s = pre @ k # post" "\<forall>i \<in> set pre. started s i" "\<not> started s k"
  shows "cleanupSession_traced s =
     (session_calls s @ track_calls s @ context_calls s @ map SourceStop (pre @ [k]),
      Threw InvalidStateError
        (s\<lparr>sessionPromiseRef := None, streamRef := None, audioContextsRef := None,
           heap := stopped_heap pre (heap s)\<rparr>))"
proof -
  let ?s3 = "s\<lparr>sessionPromiseRef := None, streamRef := None, audioContextsRef := None\<rparr>"
  have "forEach_stop_traced (pre @ k # post) ?s3 =
     (map SourceStop (pre @ [k]),
      Threw InvalidStateError (?s3\<lparr>heap := stopped_heap pre (heap ?s3)\<rparr>))"
    by (rule forEach_stop_traced_fails) (use assms(4,5) in simp_all)
  then show ?thesis
    using assms(1,2,3)
    by (simp add: cleanupSession_traced_def first_three_steps stopAllSources_traced_def)
qed

lemma cleanupSession_traced_succeeds:
  assumes "steps_can_succeed s"
  shows "cleanupSession_traced s =
     (session_calls s @ track_calls s @ context_calls s @ map SourceStop (sourcesRef s),
      Returned
        (s\<lparr>sessionPromiseRef := None, streamRef := None, audioContextsRef := None,
           heap := stopped_heap (sourcesRef s) (heap s), sourcesRef := [],
           nextStartTimeRef := 0, sessionState := idleState,
           currentInput := [], currentOutput := []\<rparr>))"
proof -
  let ?s3 = "s\<lparr>sessionPromiseRef := None, streamRef := None, audioContextsRef := None\<rparr>"
  from assms have a: "promise_not_rejected s" "contexts_open s"
      "\<forall>i \<in> set (sourcesRef s). started s i"
    by (simp_all add: steps_can_succeed_iff live_started_iff)
  have "forEach_stop_traced (sourcesRef s) ?s3 =
     (map SourceStop (sourcesRef s), Returned (?s3\<lparr>heap := stopped_heap (sourcesRef s) (heap ?s3)\<rparr>))"
    by (rule forEach_stop_traced_all) (use a(3) in simp)
  then show ?thesis
    using a(1,2)
    by (simp add: cleanupSession_traced_def first_three_steps stopAllSources_traced_def
        resetState_def idleState_def)
qed

lemma cleanupSession_traced_torn_down:
  "torn_down s \<Longrightarrow> cleanupSession_traced s = ([], Returned s)"
  by (cases s)
    (simp add: torn_down_def cleanupSession_traced_def closeSession_traced_def
      stopStream_traced_def closeContexts_traced_def stopAllSources_traced_def resetState_def
      idleState_def)

lemma cleanupSession_traced_throws:
  assumes "\<not> steps_can_succeed s"
  shows "\<exists>cs e s'. cleanupSession_traced s = (cs, Threw e s')"
proof -
  consider "\<not> promise_not_rejected s"
    | "promise_not_rejected s" "\<not> contexts_open s"
    | "promise_not_rejected s" "contexts_open s" "\<not> live_started s"
    using assms by (auto simp: steps_can_succeed_iff)
  then show ?thesis
  proof cases
    case 1
    then obtain e where "sessionPromiseRef s = Some (Rejected e)"
      by (auto simp: promise_not_rejected_def split: option.splits promise.splits)
    then show ?thesis by (simp add: cleanupSession_traced_rejected)
  next
    case 2
    then obtain ctxs where c: "audioContextsRef s = Some ctxs"
        "closed (inputCtx ctxs) \<or> closed (outputCtx ctxs)"
      by (auto simp: contexts_open_def split: option.splits)
    show ?thesis
    proof (cases "closed (inputCtx ctxs)")
      case True
      with 2(1) c(1) show ?thesis by (simp add: cleanupSession_traced_input_closed)
    next
      case False
      with 2(1) c show ?thesis by (simp add: cleanupSession_traced_output_closed)
    qed
  next
    case 3
    then have "\<exists>i \<in> set (sourcesRef s). \<not> started s i" by (simp add: live_started_iff)
    from split_list_first_prop [OF this]
    obtain pre k post where "sourcesRef s = pre @ k # post" "\<not> started s k"
        "\<forall>i \<in> set pre. \<not> \<not> started s i"
      by blast
    with 3(1,2) show ?thesis by (simp add: cleanupSession_traced_stop_throws)
  qed
qed

lemma stopped_stopped_heap:
  "started s i \<Longrightarrow> i \<in> set ids \<Longrightarrow> stopped (stopped_heap ids (heap s) ! i)"
  by (simp add: started_def nth_stopped_heap)

lemma playingState_eq:
  "playingState =
     activeState
       \<lparr>nextStartTimeRef := 1 / 8000, sourcesRef := [0],
        heap := [\<lparr>buffer = chunk [0, 0, 0], startedAt = Some 0, stopped = False\<rparr>]\<rparr>"
  by (simp add: playingState_def enqueue_def scheduleBuffer_def advanceCursor_def set_add_def
      Let_def activeState_def initialState_def duration_def chunk_def)

lemma stopped_heap_one:
  "stopped_heap [0] [n] = [n\<lparr>stopped := True\<rparr>]"
  "stopped_heap [0] [n, m] = [n\<lparr>stopped := True\<rparr>, m]"
  by (simp_all add: stopped_heap_def upt_rec)

text \<open>
  Claim C7, as amended. The teardown, each call run to its end before the next (calls
  that overlap are the subject of the last section), is idempotent but not total. Its
  outcome is that of \<open>cleanupSession\<close>, given here with the platform calls it has made.
  It returns exactly when no step can fail, and in particular when no session is active.
  When no step can fail, every step has been executed: the session is closed if there
  is one, every track of the microphone stream is stopped, both audio contexts are
  closed, \<open>stop()\<close> has been called on every live source and each of them is stopped,
  the live set is empty, the cursor is 0, the session state is idle and both pending
  buffers are empty; nothing else of the state has changed (the log is kept). A
  second call after a teardown that returned makes no call, returns without an error
  and changes nothing. When a step fails, the teardown ends there with that error: the
  steps before it have been executed, the failing call is the last call made, and no
  step after it has been executed. The failing step is the await of a rejected session
  promise (nothing has been done), \<open>close()\<close> on a closed input context (the session and
  the stream have been released, the output context has not been closed), \<open>close()\<close> on a
  closed output context (the input context has been closed, the reference to the
  contexts is kept), or \<open>stop()\<close> on a source that has not been started (the sources
  before it have been stopped, those after it have not, and the live set, the cursor, the
  session state and the pending buffers are as they were).
\<close>

theorem cleanupSession_runs_every_step_or_ends_at_the_failure:
  "snd (cleanupSession_traced s) = cleanupSession s \<and>
   ((\<exists>cs s'. cleanupSession_traced s = (cs, Returned s')) \<longleftrightarrow> steps_can_succeed s) \<and>
   (sessionPromiseRef s = None \<and> streamRef s = None \<and> audioContextsRef s = None \<and>
      live_started s \<longrightarrow> steps_can_succeed s) \<and>
   (steps_can_succeed s \<longrightarrow>
      cleanupSession_traced s =
        (session_calls s @ track_calls s @ context_calls s @ map SourceStop (sourcesRef s),
         Returned
           (s\<lparr>sessionPromiseRef := None, streamRef := None, audioContextsRef := None,
              heap := stopped_heap (sourcesRef s) (heap s), sourcesRef := [],
              nextStartTimeRef := 0, sessionState := idleState,
              currentInput := [], currentOutput := []\<rparr>)) \<and>
      (\<forall>i \<in> set (sourcesRef s). stopped (stopped_heap (sourcesRef s) (heap s) ! i))) \<and>
   (cleanupSession_traced s = (cs, Returned s') \<longrightarrow>
      torn_down s' \<and> cleanupSession_traced s' = ([], Returned s')) \<and>
   (sessionPromiseRef s = Some (Rejected e) \<longrightarrow> cleanupSession_traced s = ([], Threw e s)) \<and>
   (promise_not_rejected s \<and> audioContextsRef s = Some ctxs \<and> closed (inputCtx ctxs) \<longrightarrow>
      cleanupSession_traced s =
        (session_calls s @ track_calls s @ [ContextClose InputContext],
         Threw InvalidStateError (s\<lparr>sessionPromiseRef := None, streamRef := None\<rparr>))) \<and>
   (promise_not_rejected s \<and> audioContextsRef s = Some ctxs \<and>
      \<not> closed (inputCtx ctxs) \<and> closed (outputCtx ctxs) \<longrightarrow>
      cleanupSession_traced s =
        (session_calls s @ track_calls s @ [ContextClose InputContext, ContextClose OutputContext],
         Threw InvalidStateError
           (s\<lparr>sessionPromiseRef := None, streamRef := None,
              audioContextsRef := Some (ctxs\<lparr>inputCtx := (inputCtx ctxs)\<lparr>closed := True\<rparr>\<rparr>)\<rparr>))) \<and>
   (promise_not_rejected s \<and> contexts_open s \<and> sourcesRef s = pre @ k # post \<and>
      (\<forall>i \<in> set pre. started s i) \<and> \<not> started s k \<longrightarrow>
      cleanupSession_traced s =
        (session_calls s @ track_calls s @ context_calls s @ map SourceStop (pre @ [k]),
         Threw InvalidStateError
           (s\<lparr>sessionPromiseRef := None, streamRef := None, audioContextsRef := None,
              heap := stopped_heap pre (heap s)\<rparr>)))"
proof (intro conjI impI iffI)
  show "snd (cleanupSession_traced s) = cleanupSession s" by (rule snd_cleanupSession_traced)
next
  assume "\<exists>cs s'. cleanupSession_traced s = (cs, Returned s')"
  then obtain cs s' where r: "cleanupSession_traced s = (cs, Returned s')" by blast
  show "steps_can_succeed s"
  proof (rule ccontr)
    assume "\<not> steps_can_succeed s"
    from cleanupSession_traced_throws [OF this] r show False by auto
  qed
next
  assume "steps_can_succeed s"
  then show "\<exists>cs s'. cleanupSession_traced s = (cs, Returned s')"
    by (simp add: cleanupSession_traced_succeeds)
next
  assume "sessionPromiseRef s = None \<and> streamRef s = None \<and> audioContextsRef s = None \<and>
      live_started s"
  then show "steps_can_succeed s" by (simp add: steps_can_succeed_def)
next
  assume a: "steps_can_succeed s"
  then show "cleanupSession_traced s =
        (session_calls s @ track_calls s @ context_calls s @ map SourceStop (sourcesRef s),
         Returned
           (s\<lparr>sessionPromiseRef := None, streamRef := None, audioContextsRef := None,
              heap := stopped_heap (sourcesRef s) (heap s), sourcesRef := [],
              nextStartTimeRef := 0, sessionState := idleState,
              currentInput := [], currentOutput := []\<rparr>))"
    by (rule cleanupSession_traced_succeeds)
  from a show "\<forall>i \<in> set (sourcesRef s). stopped (stopped_heap (sourcesRef s) (heap s) ! i)"
    by (simp add: steps_can_succeed_iff live_started_iff stopped_stopped_heap)
next
  assume r: "cleanupSession_traced s = (cs, Returned s')"
  then have "cleanupSession s = Returned s'"
    using snd_cleanupSession_traced [of s] by simp
  then show "torn_down s'" by (rule cleanupSession_torn_down)
  then show "cleanupSession_traced s' = ([], Returned s')"
    by (rule cleanupSession_traced_torn_down)
next
  assume "sessionPromiseRef s = Some (Rejected e)"
  then show "cleanupSession_traced s = ([], Threw e s)" by (rule cleanupSession_traced_rejected)
next
  assume "promise_not_rejected s \<and> audioContextsRef s = Some ctxs \<and> closed (inputCtx ctxs)"
  then show "cleanupSession_traced s =
        (session_calls s @ track_calls s @ [ContextClose InputContext],
         Threw InvalidStateError (s\<lparr>sessionPromiseRef := None, streamRef := None\<rparr>))"
    by (simp add: cleanupSession_traced_input_closed)
next
  assume "promise_not_rejected s \<and> audioContextsRef s = Some ctxs \<and>
      \<not> closed (inputCtx ctxs) \<and> closed (outputCtx ctxs)"
  then show "cleanupSession_traced s =
        (session_calls s @ track_calls s @ [ContextClose InputContext, ContextClose OutputContext],
         Threw InvalidStateError
           (s\<lparr>sessionPromiseRef := None, streamRef := None,
              audioContextsRef := Some (ctxs\<lparr>inputCtx := (inputCtx ctxs)\<lparr>closed := True\<rparr>\<rparr>)\<rparr>))"
    by (simp add: cleanupSession_traced_output_closed)
next
  assume "promise_not_rejected s \<and> contexts_open s \<and> sourcesRef s = pre @ k # post \<and>
      (\<forall>i \<in> set pre. started s i) \<and> \<not> started s k"
  then show "cleanupSession_traced s =
        (session_calls s @ track_calls s @ context_calls s @ map SourceStop (pre @ [k]),
         Threw InvalidStateError
           (s\<lparr>sessionPromiseRef := None, streamRef := None, audioContextsRef := None,
              heap := stopped_heap pre (heap s)\<rparr>))"
    by (simp add: cleanupSession_traced_stop_throws)
qed


text \<open>
  The claim as stated fails where the connection could not be opened: the first step
  awaits the rejected promise, which throws, and nothing else is done. The microphone
  stream and the audio contexts stay, and the session state stays at connecting.
\<close>

theorem cleanupSession_not_total_counterexample:
  "startSession (Some ''key'') (Inr \<lparr>tracks = [Live]\<rparr>) (Rejected (Error ''connect failed''))
     initialState = Returned connectFailedState \<and>
   cleanupSession connectFailedState = Threw (Error ''connect failed'') connectFailedState \<and>
   streamRef connectFailedState = Some \<lparr>tracks = [Live]\<rparr> \<and>
   audioContextsRef connectFailedState \<noteq> None \<and>
   sessionState connectFailedState = \<lparr>isActive = False, isConnecting = True, error = None\<rparr> \<and>
   sessionState connectFailedState \<noteq> idleState"
  by (simp add: startSession_def connectFailedState_def initialState_def idleState_def Let_def
      cleanupSession_def closeSession_def)

text \<open>The theorem at a session that is playing a chunk, at the state this teardown
  returns, at the initial state, at the failed connection, at a session with the input
  context closed, at one with the output context closed, and at one with a source that
  has not been started.\<close>

theorem cleanupSession_runs_every_step_or_ends_at_the_failure_witness:
  "steps_can_succeed playingState \<and>
   cleanupSession_traced playingState =
     ([SessionClose, TrackStop 0, ContextClose InputContext, ContextClose OutputContext,
       SourceStop 0],
      Returned
        (initialState
           \<lparr>heap := [\<lparr>buffer = chunk [0, 0, 0], startedAt = Some 0, stopped = True\<rparr>]\<rparr>)) \<and>
   cleanupSession_traced
     (initialState\<lparr>heap := [\<lparr>buffer = chunk [0, 0, 0], startedAt = Some 0, stopped = True\<rparr>]\<rparr>) =
     ([], Returned
        (initialState
           \<lparr>heap := [\<lparr>buffer = chunk [0, 0, 0], startedAt = Some 0, stopped = True\<rparr>]\<rparr>)) \<and>
   sessionPromiseRef initialState = None \<and> streamRef initialState = None \<and>
   audioContextsRef initialState = None \<and> live_started initialState \<and>
   cleanupSession_traced initialState = ([], Returned initialState) \<and>
   sessionPromiseRef connectFailedState = Some (Rejected (Error ''connect failed'')) \<and>
   cleanupSession_traced connectFailedState =
     ([], Threw (Error ''connect failed'') connectFailedState) \<and>
   promise_not_rejected closingState \<and>
   cleanupSession_traced closingState =
     ([ContextClose InputContext], Threw InvalidStateError closingState) \<and>
   promise_not_rejected outputClosedState \<and>
   cleanupSession_traced outputClosedState =
     ([SessionClose, TrackStop 0, ContextClose InputContext, ContextClose OutputContext],
      Threw InvalidStateError
        (outputClosedState
           \<lparr>sessionPromiseRef := None, streamRef := None,
            audioContextsRef := Some \<lparr>inputCtx = \<lparr>sampleRate = 16000, closed = True\<rparr>,
                                     outputCtx = \<lparr>sampleRate = 24000, closed = True\<rparr>\<rparr>\<rparr>)) \<and>
   promise_not_rejected unstartedState \<and> contexts_open unstartedState \<and>
   sourcesRef unstartedState = [0] @ 1 # [] \<and>
   started unstartedState 0 \<and> \<not> started unstartedState 1 \<and>
   cleanupSession_traced unstartedState =
     ([SessionClose, TrackStop 0, ContextClose InputContext, ContextClose OutputContext,
       SourceStop 0, SourceStop 1],
      Threw InvalidStateError
        (unstartedState
           \<lparr>sessionPromiseRef := None, streamRef := None, audioContextsRef := None,
            heap := [\<lparr>buffer = chunk [0, 0, 0], startedAt = Some 0, stopped = True\<rparr>,
                     \<lparr>buffer = chunk [0], startedAt = None, stopped = False\<rparr>]\<rparr>))"
proof -
  have p: "steps_can_succeed playingState"
    by (simp add: steps_can_succeed_def live_started_def playingState_eq activeState_def
        initialState_def)
  have i: "sessionPromiseRef initialState = None \<and> streamRef initialState = None \<and>
      audioContextsRef initialState = None \<and> live_started initialState"
    by (simp add: initialState_def live_started_def)
  have c: "sessionPromiseRef connectFailedState = Some (Rejected (Error ''connect failed''))"
    by (simp add: connectFailedState_def initialState_def)
  have cl: "promise_not_rejected closingState \<and>
      audioContextsRef closingState =
        Some \<lparr>inputCtx = \<lparr>sampleRate = 16000, closed = True\<rparr>,
              outputCtx = \<lparr>sampleRate = 24000, closed = False\<rparr>\<rparr>"
    by (simp add: promise_not_rejected_def closingState_def activeState_def initialState_def)
  have oc: "promise_not_rejected outputClosedState \<and>
      audioContextsRef outputClosedState =
        Some \<lparr>inputCtx = \<lparr>sampleRate = 16000, closed = False\<rparr>,
              outputCtx = \<lparr>sampleRate = 24000, closed = True\<rparr>\<rparr>"
    by (simp add: promise_not_rejected_def outputClosedState_def activeState_def initialState_def)
  have u: "promise_not_rejected unstartedState \<and> contexts_open unstartedState \<and>
      sourcesRef unstartedState = [0] @ 1 # [] \<and>
      started unstartedState 0 \<and> \<not> started unstartedState 1"
    by (simp add: promise_not_rejected_def contexts_open_def started_def unstartedState_def
        playingState_eq activeState_def initialState_def)
  note t = cleanupSession_runs_every_step_or_ends_at_the_failure
  from t [where s = playingState] p
  have 1: "cleanupSession_traced playingState =
     ([SessionClose, TrackStop 0, ContextClose InputContext, ContextClose OutputContext,
       SourceStop 0],
      Returned
        (initialState
           \<lparr>heap := [\<lparr>buffer = chunk [0, 0, 0], startedAt = Some 0, stopped = True\<rparr>]\<rparr>))"
    by (simp add: session_calls_def track_calls_def context_calls_def stopped_heap_one
        playingState_eq activeState_def initialState_def)
  from t [where s = playingState and cs = "[SessionClose, TrackStop 0, ContextClose InputContext,
      ContextClose OutputContext, SourceStop 0]"
      and s' = "initialState
           \<lparr>heap := [\<lparr>buffer = chunk [0, 0, 0], startedAt = Some 0, stopped = True\<rparr>]\<rparr>"] 1
  have 2: "cleanupSession_traced
     (initialState\<lparr>heap := [\<lparr>buffer = chunk [0, 0, 0], startedAt = Some 0, stopped = True\<rparr>]\<rparr>) =
     ([], Returned
        (initialState
           \<lparr>heap := [\<lparr>buffer = chunk [0, 0, 0], startedAt = Some 0, stopped = True\<rparr>]\<rparr>))"
    by blast
  from t [where s = initialState] i
  have 3: "cleanupSession_traced initialState = ([], Returned initialState)"
    by (simp add: session_calls_def track_calls_def context_calls_def
        initialState_def idleState_def)
  from t [where s = connectFailedState and e = "Error ''connect failed''"] c
  have 4: "cleanupSession_traced connectFailedState =
     ([], Threw (Error ''connect failed'') connectFailedState)"
    by blast
  from t [where s = closingState
      and ctxs = "\<lparr>inputCtx = \<lparr>sampleRate = 16000, closed = True\<rparr>,
              outputCtx = \<lparr>sampleRate = 24000, closed = False\<rparr>\<rparr>"] cl
  have 5: "cleanupSession_traced closingState =
     ([ContextClose InputContext], Threw InvalidStateError closingState)"
    by (simp add: session_calls_def track_calls_def closingState_def activeState_def
        initialState_def)
  from t [where s = outputClosedState
      and ctxs = "\<lparr>inputCtx = \<lparr>sampleRate = 16000, closed = False\<rparr>,
              outputCtx = \<lparr>sampleRate = 24000, closed = True\<rparr>\<rparr>"] oc
  have 6: "cleanupSession_traced outputClosedState =
     ([SessionClose, TrackStop 0, ContextClose InputContext, ContextClose OutputContext],
      Threw InvalidStateError
        (outputClosedState
           \<lparr>sessionPromiseRef := None, streamRef := None,
            audioContextsRef := Some \<lparr>inputCtx = \<lparr>sampleRate = 16000, closed = True\<rparr>,
                                     outputCtx = \<lparr>sampleRate = 24000, closed = True\<rparr>\<rparr>\<rparr>))"
    by (simp add: session_calls_def track_calls_def outputClosedState_def activeState_def
        initialState_def)
  from t [where s = unstartedState and pre = "[0]" and k = 1 and post = "[]"] u
  have 7: "cleanupSession_traced unstartedState =
     ([SessionClose, TrackStop 0, ContextClose InputContext, ContextClose OutputContext,
       SourceStop 0, SourceStop 1],
      Threw InvalidStateError
        (unstartedState
           \<lparr>sessionPromiseRef := None, streamRef := None, audioContextsRef := None,
            heap := [\<lparr>buffer = chunk [0, 0, 0], startedAt = Some 0, stopped = True\<rparr>,
                     \<lparr>buffer = chunk [0], startedAt = None, stopped = False\<rparr>]\<rparr>))"
    by (simp add: session_calls_def track_calls_def context_calls_def stopped_heap_one
        unstartedState_def playingState_eq activeState_def initialState_def)
  from p i c cl oc u 1 2 3 4 5 6 7 show ?thesis by simp
qed

section \<open>Work in flight at teardown\<close>

lemma scheduleBuffer_torn_down:
  "torn_down s \<Longrightarrow>
   scheduleBuffer audioBuffer s =
     s\<lparr>heap := heap s @ [\<lparr>buffer = audioBuffer, startedAt = Some 0, stopped = False\<rparr>],
       nextStartTimeRef := duration audioBuffer,
       sourcesRef := [length (heap s)]\<rparr>"
  by (simp add: torn_down_def scheduleBuffer_def set_add_def Let_def)

lemma onmessage_before_await_torn_down:
  assumes "torn_down s"
  shows "\<exists>r. onmessage_before_await now clock message s = Finished r \<and>
           heap (state_of r) = heap s \<and> sourcesRef (state_of r) = []"
proof -
  let ?s1 = "handleTurnComplete now message (handleTranscription message s)"
  have s1: "audioContextsRef ?s1 = None" "sourcesRef ?s1 = []" "heap ?s1 = heap s"
    using assms by (simp_all add: torn_down_def)
  then have "stopAllSources ?s1 = Returned (?s1\<lparr>nextStartTimeRef := 0\<rparr>)"
    by (simp add: stopAllSources_empty)
  then have h: "heap (state_of (handleInterrupted message ?s1)) = heap s \<and>
      sourcesRef (state_of (handleInterrupted message ?s1)) = []"
    using s1 by (simp add: handleInterrupted_def split: option.splits)
  show ?thesis
    using s1 h
    by (auto simp: onmessage_before_await_def Let_def split: sum.splits option.splits)
qed

text \<open>
  Claim C8, as amended. A message that arrives after a completed teardown is not decoded:
  the handler finishes before line 125 with the heap as it was and the live set empty.
  But a chunk whose decode was in flight when the teardown ran is not ignored: the rest
  of the handler (lines 126 to 134) tests nothing, so when the decode completes it
  creates a source node, starts it at the reset cursor 0, moves the cursor by the chunk's
  duration and adds the node to the live set.
\<close>

theorem chunk_in_flight_at_teardown_is_scheduled:
  "(payload \<noteq> [] \<and> audioContextsRef s \<noteq> None \<and>
      decodeChunk payload = Fulfilled audioBuffer \<and>
      cleanupSession (advanceCursor clock s) = Returned s' \<longrightarrow>
      onmessage_before_await now clock (audioChunk payload) s =
        Awaiting (Fulfilled audioBuffer) (advanceCursor clock s) \<and>
      onmessage_after_await (audioChunk payload) (Fulfilled audioBuffer) s' =
        Returned
          (s'\<lparr>heap := heap s' @ [\<lparr>buffer = audioBuffer, startedAt = Some 0, stopped = False\<rparr>],
              nextStartTimeRef := duration audioBuffer,
              sourcesRef := [length (heap s')]\<rparr>)) \<and>
   (cleanupSession s = Returned s' \<longrightarrow>
      (\<exists>r. onmessage_before_await now clock message s' = Finished r \<and>
         heap (state_of r) = heap s' \<and> sourcesRef (state_of r) = []))"
proof (intro conjI impI)
  assume a: "payload \<noteq> [] \<and> audioContextsRef s \<noteq> None \<and>
      decodeChunk payload = Fulfilled audioBuffer \<and>
      cleanupSession (advanceCursor clock s) = Returned s'"
  then show "onmessage_before_await now clock (audioChunk payload) s =
        Awaiting (Fulfilled audioBuffer) (advanceCursor clock s)"
    by (simp add: onmessage_before_await_def base64Audio_audioChunk Let_def)
      (simp add: audioChunk_def emptyContent_def handleTranscription_def handleTurnComplete_def)
  from a have "torn_down s'" by (auto intro: cleanupSession_torn_down)
  from scheduleBuffer_torn_down [OF this]
  show "onmessage_after_await (audioChunk payload) (Fulfilled audioBuffer) s' =
        Returned
          (s'\<lparr>heap := heap s' @ [\<lparr>buffer = audioBuffer, startedAt = Some 0, stopped = False\<rparr>],
              nextStartTimeRef := duration audioBuffer,
              sourcesRef := [length (heap s')]\<rparr>)"
    by (simp add: onmessage_after_await_def handleInterrupted_def audioChunk_def emptyContent_def)
next
  assume "cleanupSession s = Returned s'"
  then have "torn_down s'" by (rule cleanupSession_torn_down)
  then show "\<exists>r. onmessage_before_await now clock message s' = Finished r \<and>
         heap (state_of r) = heap s' \<and> sourcesRef (state_of r) = []"
    by (rule onmessage_before_await_torn_down)
qed

lemma cleanupSession_activeState: "cleanupSession activeState = Returned initialState"
  by (simp add: activeState_def initialState_def idleState_def cleanupSession_def
      closeSession_def stopStream_def closeContexts_def stopAllSources_def resetState_def)

lemma advanceCursor_activeState: "advanceCursor 0 activeState = activeState"
  by (simp add: advanceCursor_def activeState_def initialState_def)

text \<open>
  The claim as stated fails on an active session: the handler is suspended on the decode
  of a chunk of three samples, the teardown runs to its end, the decode completes, and the
  chunk is scheduled and in the live set.
\<close>

theorem chunk_in_flight_counterexample:
  "onmessage_before_await 0 0 (audioChunk ''AAAAAAAA'') activeState =
     Awaiting (Fulfilled (chunk [0, 0, 0])) activeState \<and>
   cleanupSession activeState = Returned initialState \<and>
   onmessage_after_await (audioChunk ''AAAAAAAA'') (Fulfilled (chunk [0, 0, 0])) initialState =
     Returned
       (initialState
          \<lparr>heap := [\<lparr>buffer = chunk [0, 0, 0], startedAt = Some 0, stopped = False\<rparr>],
           nextStartTimeRef := 1 / 8000,
           sourcesRef := [0]\<rparr>)"
proof -
  have "onmessage_before_await 0 0 (audioChunk ''AAAAAAAA'') activeState =
     Awaiting (Fulfilled (chunk [0, 0, 0])) (advanceCursor 0 activeState)"
    by (simp add: onmessage_before_await_def base64Audio_audioChunk Let_def
        decodeChunk_three_zeros)
      (simp add: audioChunk_def emptyContent_def handleTranscription_def handleTurnComplete_def
        activeState_def initialState_def)
  moreover have "onmessage_after_await (audioChunk ''AAAAAAAA'') (Fulfilled (chunk [0, 0, 0]))
      initialState =
     Returned
       (initialState
          \<lparr>heap := [\<lparr>buffer = chunk [0, 0, 0], startedAt = Some 0, stopped = False\<rparr>],
           nextStartTimeRef := 1 / 8000,
           sourcesRef := [0]\<rparr>)"
    by (simp add: onmessage_after_await_def handleInterrupted_def audioChunk_def emptyContent_def
        scheduleBuffer_def set_add_def Let_def initialState_def duration_def chunk_def)
  ultimately show ?thesis
    by (simp add: advanceCursor_activeState cleanupSession_activeState)
qed

theorem chunk_in_flight_at_teardown_is_scheduled_witness:
  "''AAAAAAAA'' \<noteq> [] \<and> audioContextsRef activeState \<noteq> None \<and>
   decodeChunk ''AAAAAAAA'' = Fulfilled (chunk [0, 0, 0]) \<and>
   cleanupSession (advanceCursor 0 activeState) = Returned initialState \<and>
   onmessage_after_await (audioChunk ''AAAAAAAA'') (Fulfilled (chunk [0, 0, 0])) initialState =
     Returned
       (initialState
          \<lparr>heap := [\<lparr>buffer = chunk [0, 0, 0], startedAt = Some 0, stopped = False\<rparr>],
           nextStartTimeRef := 1 / 8000,
           sourcesRef := [0]\<rparr>) \<and>
   cleanupSession activeState = Returned initialState \<and>
   onmessage_before_await 0 0 (audioChunk ''AAAAAAAA'') initialState = Finished (Returned initialState)"
proof -
  have a: "''AAAAAAAA'' \<noteq> [] \<and> audioContextsRef activeState \<noteq> None"
    by (simp add: activeState_def initialState_def)
  have c: "cleanupSession (advanceCursor 0 activeState) = Returned initialState"
    by (simp add: advanceCursor_activeState cleanupSession_activeState)
  from chunk_in_flight_at_teardown_is_scheduled
    [where payload = "''AAAAAAAA''" and s = activeState and audioBuffer = "chunk [0, 0, 0]"
       and clock = 0 and s' = initialState and now = 0 and message = "audioChunk ''AAAAAAAA''"]
    a c decodeChunk_three_zeros cleanupSession_activeState
  have f: "onmessage_after_await (audioChunk ''AAAAAAAA'') (Fulfilled (chunk [0, 0, 0])) initialState =
      Returned
        (initialState
          \<lparr>heap := heap initialState @
              [\<lparr>buffer = chunk [0, 0, 0], startedAt = Some 0, stopped = False\<rparr>],
           nextStartTimeRef := duration (chunk [0, 0, 0]),
           sourcesRef := [length (heap initialState)]\<rparr>)"
    and "\<exists>r. onmessage_before_await 0 0 (audioChunk ''AAAAAAAA'') initialState = Finished r \<and>
         heap (state_of r) = heap initialState \<and> sourcesRef (state_of r) = []"
    by blast+
  have b: "onmessage_before_await 0 0 (audioChunk ''AAAAAAAA'') initialState =
      Finished (Returned initialState)"
    by (simp add: onmessage_before_await_def base64Audio_audioChunk Let_def)
      (simp add: audioChunk_def emptyContent_def handleTranscription_def handleTurnComplete_def
        handleInterrupted_def initialState_def)
  from f have "onmessage_after_await (audioChunk ''AAAAAAAA'') (Fulfilled (chunk [0, 0, 0])) initialState =
     Returned
       (initialState
          \<lparr>heap := [\<lparr>buffer = chunk [0, 0, 0], startedAt = Some 0, stopped = False\<rparr>],
           nextStartTimeRef := 1 / 8000,
           sourcesRef := [0]\<rparr>)"
    by (simp add: initialState_def duration_def chunk_def)
  with a b c decodeChunk_three_zeros cleanupSession_activeState show ?thesis by simp
qed

section \<open>A transport error\<close>

text \<open>Whenever the teardown that \<open>onerror\<close> starts runs to its end, the message that
  \<open>onerror\<close> recorded is gone: the last step of the teardown sets the session state
  anew, with no error.\<close>

lemma onerror_Returned: "onerror s = Returned s' \<Longrightarrow> error (sessionState s') = None"
  by (auto simp: onerror_def idleState_def dest!: cleanupSession_Returned)

text \<open>The same on the other path that records a message, the \<open>catch\<close> block of
  \<open>startSession\<close>: without an API key the session state ends as it began.\<close>

lemma startSession_without_key:
  "startSession None getUserMedia sessionPromise initialState = Returned initialState"
  by (simp add: startSession_def startSession_catch_def Let_def initialState_def idleState_def
      cleanupSession_def closeSession_def stopStream_def closeContexts_def stopAllSources_def
      resetState_def)

text \<open>
  Claim C5 does not hold of the code. On an active session, \<open>onerror\<close> records the
  message \<open>Connection failed. Please try again.\<close> and runs the teardown; when the
  teardown has completed, the session state is idle with no error message.
\<close>

theorem onerror_message_does_not_persist:
  "onerror activeState = Returned initialState \<and>
   sessionState initialState = \<lparr>isActive = False, isConnecting = False, error = None\<rparr>"
  by (simp add: onerror_def activeState_def initialState_def idleState_def cleanupSession_def
      closeSession_def stopStream_def closeContexts_def stopAllSources_def resetState_def)

section \<open>Invariants of the callbacks\<close>

text \<open>
  The two conditions the theorems above ask of a state hold of the initial state and
  are kept by every callback, run whole or in two parts around its \<open>await\<close>: every
  live source has been started, and every identifier in the log came from the supply.
\<close>

lemma live_started_cong:
  "sourcesRef s' = sourcesRef s \<Longrightarrow> heap s' = heap s \<Longrightarrow> live_started s' = live_started s"
  by (simp add: live_started_def)

lemma live_started_before_audio:
  "live_started (advanceCursor clock (handleTurnComplete now m (handleTranscription m s))) =
     live_started s"
  "live_started (handleTurnComplete now m (handleTranscription m s)) = live_started s"
  by (simp_all add: live_started_def advanceCursor_def)

lemma live_started_scheduleBuffer: "live_started s \<Longrightarrow> live_started (scheduleBuffer b s)"
  by (auto simp: live_started_def scheduleBuffer_def set_add_def Let_def nth_append)

lemma live_started_stopAllSources:
  "live_started s \<Longrightarrow> live_started (state_of (stopAllSources s))"
  using stopAllSources_live_started [of s] by (auto simp: live_started_def)

lemma live_started_handleInterrupted:
  "live_started s \<Longrightarrow> live_started (state_of (handleInterrupted m s))"
  by (auto simp: handleInterrupted_def live_started_stopAllSources split: option.splits)

lemma live_started_onmessage_after_await:
  "live_started s \<Longrightarrow> live_started (state_of (onmessage_after_await m p s))"
  by (cases p)
    (simp_all add: onmessage_after_await_def live_started_handleInterrupted
      live_started_scheduleBuffer)

lemma live_started_onmessage_before_await:
  assumes "live_started s"
  shows "case onmessage_before_await now clock m s of
           Finished r \<Rightarrow> live_started (state_of r)
         | Awaiting p s1 \<Rightarrow> live_started s1"
  using assms
  by (auto simp: onmessage_before_await_def Let_def live_started_before_audio
      live_started_handleInterrupted split: sum.splits option.splits)

lemma live_started_onmessage:
  assumes "live_started s"
  shows "live_started (state_of (onmessage now clock m s))"
  using live_started_onmessage_before_await [OF assms, of now clock m]
  by (auto simp: onmessage_def live_started_onmessage_after_await split: suspended.splits)

lemma live_started_cleanupSession:
  assumes "live_started s"
  shows "live_started (state_of (cleanupSession s))"
proof (cases "cleanupSession s")
  case (Returned s')
  then have "torn_down s'" by (rule cleanupSession_torn_down)
  with Returned show ?thesis by (simp add: torn_down_def live_started_def)
next
  case (Threw e s')
  from cleanupSession_Threw [OF this] have s: "sourcesRef s' = sourcesRef s" by simp
  from Threw consider
      "closeSession s = Threw e s'"
    | s1 where "closeSession s = Returned s1" "closeContexts (s1\<lparr>streamRef := None\<rparr>) = Threw e s'"
    | s1 s3 where "closeSession s = Returned s1"
        "closeContexts (s1\<lparr>streamRef := None\<rparr>) = Returned s3" "stopAllSources s3 = Threw e s'"
    unfolding cleanupSession_def andThen_eq_Threw andThen_eq_Returned stopStream_eq
    by (auto simp: resetState_def)
  then have "heap s' = heap s"
  proof cases
    case 1
    then show ?thesis by (auto dest!: closeSession_Threw)
  next
    case 2
    then show ?thesis by (auto dest!: closeSession_Returned closeContexts_Threw)
  next
    case 3
    then have "live_started s3"
      using assms by (auto simp: live_started_def dest!: closeSession_Returned closeContexts_Returned)
    from stopAllSources_live_started [OF this] 3(3) show ?thesis by auto
  qed
  with s Threw assms show ?thesis by (simp add: live_started_def)
qed

lemma live_started_onerror: "live_started s \<Longrightarrow> live_started (state_of (onerror s))"
  unfolding onerror_def by (rule live_started_cleanupSession) (simp add: live_started_def)

lemma live_started_startSession:
  assumes "live_started s"
  shows "live_started (state_of (startSession apiKey getUserMedia sessionPromise s))"
proof -
  have c: "live_started (state_of (startSession_catch msg s1))"
    if "sourcesRef s1 = sourcesRef s" "heap s1 = heap s" for msg s1
    unfolding startSession_catch_def
    by (rule live_started_cleanupSession) (use that assms in \<open>simp add: live_started_def\<close>)
  show ?thesis
  proof (cases "apiKey = None \<or> apiKey = Some []")
    case True
    then show ?thesis by (simp add: startSession_def Let_def c)
  next
    case False
    show ?thesis
    proof (cases getUserMedia)
      case (Inl msg)
      with False show ?thesis by (auto simp: startSession_def Let_def c)
    next
      case (Inr stream)
      with False assms show ?thesis by (auto simp: startSession_def Let_def live_started_def)
    qed
  qed
qed

lemma ids_issued_initialState: "ids_issued initialState"
  by (simp add: ids_issued_def initialState_def)

lemma ids_issued_addEntry: "ids_issued s \<Longrightarrow> ids_issued (addEntry now sndr txt s)"
  by (auto simp: ids_issued_def addEntry_def)

lemma ids_issued_cong:
  "entries s' = entries s \<Longrightarrow> uuids s' = uuids s \<Longrightarrow> ids_issued s' = ids_issued s"
  by (simp add: ids_issued_def)

lemma uuids_onmessage:
  "uuids (state_of (onmessage now clock message s)) =
     uuids (handleTurnComplete now message (handleTranscription message s))"
  by (simp add: onmessage_def onmessage_before_await_def onmessage_after_await_def Let_def
      handleInterrupted_frame scheduleBuffer_def advanceCursor_def
      split: sum.splits option.splits promise.splits)

lemma ids_issued_handleTurnComplete:
  "ids_issued s \<Longrightarrow> ids_issued (handleTurnComplete now m (handleTranscription m s))"
  by (auto simp: ids_issued_def handleTurnComplete_def handleTranscription_def
      entries_completeTurn uuids_completeTurn split: option.splits)

lemma ids_issued_onmessage:
  "ids_issued s \<Longrightarrow> ids_issued (state_of (onmessage now clock m s))"
  using ids_issued_handleTurnComplete [of s now m]
  by (simp add: ids_issued_def entries_onmessage uuids_onmessage)

lemma ids_issued_cleanupSession:
  "ids_issued s \<Longrightarrow> ids_issued (state_of (cleanupSession s))"
proof (cases "cleanupSession s")
  case (Returned s')
  assume "ids_issued s"
  with cleanupSession_Returned [OF Returned] Returned show ?thesis
    by (auto simp: ids_issued_def)
next
  case (Threw e s')
  assume i: "ids_issued s"
  from Threw consider
      "closeSession s = Threw e s'"
    | s1 where "closeSession s = Returned s1" "closeContexts (s1\<lparr>streamRef := None\<rparr>) = Threw e s'"
    | s1 s3 where "closeSession s = Returned s1"
        "closeContexts (s1\<lparr>streamRef := None\<rparr>) = Returned s3" "stopAllSources s3 = Threw e s'"
    unfolding cleanupSession_def andThen_eq_Threw andThen_eq_Returned stopStream_eq
    by (auto simp: resetState_def)
  then have "entries s' = entries s \<and> uuids s' = uuids s"
  proof cases
    case 1
    then show ?thesis by (auto dest!: closeSession_Threw)
  next
    case 2
    then show ?thesis by (auto dest!: closeSession_Returned closeContexts_Threw)
  next
    case 3
    then show ?thesis
      by (auto dest!: closeSession_Returned closeContexts_Returned stopAllSources_Threw)
  qed
  with i Threw show ?thesis by (simp add: ids_issued_def)
qed

section \<open>Teardowns that overlap\<close>

text \<open>With nothing else running in between, the parts make up \<open>cleanupSession\<close>: a call
  is done after three resumptions at most.\<close>

lemma cleanup_parts_make_cleanupSession:
  "cleanup_step (cleanup_step (cleanup_step (cleanup_begin s))) = CleanupDone (cleanupSession s)"
  by (cases s)
    (auto simp: cleanup_step_def cleanup_begin_def cleanup_from_stream_def cleanup_from_sources_def
      cleanupSession_def closeSession_def stopStream_def closeContexts_def Let_def
      split: option.splits promise.splits)

text \<open>
  Two teardowns that overlap, on an active session, as when the transport reports an
  error and then closes, or the control is used twice: the first call is suspended on
  \<open>close()\<close> of the input context when the second one starts; the second finds that
  context closed and ends with an \<open>InvalidStateError\<close>; the first goes on and leaves
  the initial state.
\<close>

lemma overlapping_teardowns:
  "cleanup_step (cleanup_begin activeState) =
     CleanupAwaiting (AwaitInputClose (Fulfilled ())) closingState \<and>
   cleanup_step (cleanup_begin closingState) = CleanupDone (Threw InvalidStateError closingState) \<and>
   cleanup_step (cleanup_step (CleanupAwaiting (AwaitInputClose (Fulfilled ())) closingState)) =
     CleanupDone (Returned initialState)"
  by (simp add: cleanup_step_def cleanup_begin_def cleanup_from_stream_def cleanup_from_sources_def
      closingState_def activeState_def initialState_def idleState_def Let_def
      stopAllSources_def resetState_def)

end
